theory Spec2Isabelle
  imports Main "HOL-Library.AList" "HOL-Library.Char_ord" "HOL-Library.List_Lexorder"
begin

section \<open>Python values and built-ins used by the Store class\<close>

text \<open>
  Strings are lists of characters; the order on strings is the lexicographic order of
  the character codes, which is what Python's comparison of \<^verbatim>\<open>str\<close> computes.
  Exceptions are values: every \<^verbatim>\<open>raise\<close> of the source is an \<open>Inl\<close> result.
\<close>

datatype py_error =
  KeyError string | ValueError | IndexError | AttributeError | OverflowError

text \<open>\<^verbatim>\<open>s.split(c)\<close> for a one-character separator: never empty, keeps empty pieces.\<close>

fun py_split :: "char \<Rightarrow> string \<Rightarrow> string list" where
  "py_split c [] = [[]]"
| "py_split c (x # xs) =
     (if x = c then [] # py_split c xs
      else (let r = py_split c xs in (x # hd r) # tl r))"

text \<open>\<^verbatim>\<open>str(n)\<close> for a non-negative integer: its decimal digits.\<close>

definition digit_char :: "nat \<Rightarrow> char" where
  "digit_char d = ''0123456789'' ! d"

function py_str :: "nat \<Rightarrow> string" where
  "py_str n = (if n < 10 then [digit_char n] else py_str (n div 10) @ [digit_char (n mod 10)])"
  by pat_completeness auto
termination
  by (relation "measure (\<lambda>n. n)") auto

declare py_str.simps [simp del]

text \<open>
  \<^verbatim>\<open>int(s)\<close>: an optional sign followed by one or more decimal digits; anything else
  raises \<^verbatim>\<open>ValueError\<close>.  (Python also tolerates surrounding blanks and underscores
  between digits; \<^verbatim>\<open>str\<close> never produces them.)
\<close>

definition is_digit :: "char \<Rightarrow> bool" where
  "is_digit c = (48 \<le> (of_char c :: nat) \<and> (of_char c :: nat) \<le> 57)"

definition digit_val :: "char \<Rightarrow> nat" where
  "digit_val c = of_char c - 48"

definition digits_val :: "string \<Rightarrow> nat" where
  "digits_val s = foldl (\<lambda>acc c. 10 * acc + digit_val c) 0 s"

definition py_int_digits :: "string \<Rightarrow> py_error + nat" where
  "py_int_digits s = (if s \<noteq> [] \<and> list_all is_digit s then Inr (digits_val s) else Inl ValueError)"

definition py_int :: "string \<Rightarrow> py_error + int" where
  "py_int s =
     (case s of
        [] \<Rightarrow> Inl ValueError
      | c # r \<Rightarrow>
          if c = CHR ''-'' then (case py_int_digits r of Inl e \<Rightarrow> Inl e | Inr n \<Rightarrow> Inr (- int n))
          else if c = CHR ''+'' then (case py_int_digits r of Inl e \<Rightarrow> Inl e | Inr n \<Rightarrow> Inr (int n))
          else (case py_int_digits s of Inl e \<Rightarrow> Inl e | Inr n \<Rightarrow> Inr (int n)))"

section \<open>The grouping dictionary\<close>

text \<open>
  \<^verbatim>\<open>skus_grouped_by_style_to_size_and_quantity\<close> maps a key to either a list of
  \<^verbatim>\<open>'SIZE-QTY'\<close> strings or to a quantity string.  A Python dict keeps insertion order,
  and assigning to an existing key keeps its position: an association list with
  \<open>AList.update\<close>.
\<close>

datatype pyval = ListV "string list" | StrV string

type_synonym skus = "(string \<times> pyval) list"

text \<open>
  The pattern repeated in every brand branch:
  \<^verbatim>\<open>if k not in d: d[k] = [entry]  else: d[k].append(entry)\<close>.
  A \<^verbatim>\<open>str\<close> has no \<^verbatim>\<open>append\<close>: \<^verbatim>\<open>AttributeError\<close>, raised before anything is changed.
\<close>

definition append_entry :: "skus \<Rightarrow> string \<Rightarrow> string \<Rightarrow> py_error + skus" where
  "append_entry d k entry =
     (case map_of d k of
        None \<Rightarrow> Inr (AList.update k (ListV [entry]) d)
      | Some (ListV l) \<Rightarrow> Inr (AList.update k (ListV (l @ [entry])) d)
      | Some (StrV _) \<Rightarrow> Inl AttributeError)"

section \<open>clean_and_normalize_order_data\<close>

text \<open>\<^verbatim>\<open>style[-3:]\<close>: the last three characters, or the whole string when it is shorter.\<close>

definition last3 :: "string \<Rightarrow> string" where
  "last3 s = drop (length s - 3) s"

text \<open>
  The body of the \<^verbatim>\<open>try\<close> block for one fetched row \<open>(SKU, quantity)\<close>.  The tuple
  assignments \<^verbatim>\<open>a, b, c = SKU.split('-')\<close> raise \<^verbatim>\<open>ValueError\<close> on a wrong number of
  pieces; \<^verbatim>\<open>style[-1]\<close> raises \<^verbatim>\<open>IndexError\<close> on the empty string (it is evaluated only
  when the first disjunct is false).  A \<^verbatim>\<open>PREM\<close> or \<^verbatim>\<open>PremTee\<close> SKU with neither three nor
  four pieces matches no inner branch and the dictionary is left as it is.
\<close>

definition normalize_try :: "skus \<Rightarrow> string \<Rightarrow> nat \<Rightarrow> py_error + skus" where
  "normalize_try d SKU quantity =
     (let sku_array = py_split CHR ''-'' SKU;
          brand = hd sku_array
      in
      if brand = ''PREM'' then
        (if length sku_array = 3 then
           (case sku_array of
              [premiere, style, size'] \<Rightarrow>
                if last3 style \<noteq> ''NEW'' \<and> style = [] then Inl IndexError
                else
                  append_entry d
                    (premiere @ ''-'' @
                       (if last3 style = ''NEW'' \<or> last style = CHR ''P'' then take 3 style
                        else style))
                    (size' @ ''-'' @ py_str quantity)
            | _ \<Rightarrow> Inl ValueError)
         else if length sku_array = 4 then
           (case sku_array of
              [premiere, index_1, index_2, size'] \<Rightarrow>
                append_entry d (premiere @ ''-'' @ (index_1 @ ''-'' @ index_2))
                  (size' @ ''-'' @ py_str quantity)
            | _ \<Rightarrow> Inl ValueError)
         else Inr d)
      else if brand = ''PremJeans'' \<or> brand = ''PremiereJeans'' then
        (case sku_array of
           [jean, color, size'] \<Rightarrow>
             append_entry d ((if jean = ''PremiereJeans'' then ''PremJeans'' else jean) @ ''-'' @ color)
               (size' @ ''-'' @ py_str quantity)
         | _ \<Rightarrow> Inl ValueError)
      else if brand = ''PremTee'' \<or> brand = ''PremiereLSTee'' then
        (if length sku_array = 3 then
           (case sku_array of
              [shirt, style, size'] \<Rightarrow>
                append_entry d (style @ ''-'' @ shirt)
                  ((if size' = ''XXL'' then ''2XL'' else size') @ ''-'' @ py_str quantity)
            | _ \<Rightarrow> Inl ValueError)
         else if length sku_array = 4 then
           (case sku_array of
              [shirt, index_1, index_2, size'] \<Rightarrow>
                append_entry d (shirt @ ''-'' @ index_2 @ ''-'' @ index_1)
                  ((if size' = ''XXL'' then ''2XL'' else size') @ ''-'' @ py_str quantity)
            | _ \<Rightarrow> Inl ValueError)
         else Inr d)
      else Inr (AList.update SKU (StrV (py_str quantity)) d))"

text \<open>
  \<^verbatim>\<open>except Exception\<close>: whatever was raised, the raw SKU is stored with its quantity
  string and the loop goes on.
\<close>

definition normalize_item :: "skus \<Rightarrow> string \<times> nat \<Rightarrow> skus" where
  "normalize_item d row =
     (case normalize_try d (fst row) (snd row) of
        Inr d' \<Rightarrow> d'
      | Inl e \<Rightarrow> AList.update (fst row) (StrV (py_str (snd row))) d)"

definition normalize_rows :: "skus \<Rightarrow> (string \<times> nat) list \<Rightarrow> skus" where
  "normalize_rows d rows = foldl normalize_item d rows"

section \<open>create_pick_list\<close>

text \<open>The dictionary \<^verbatim>\<open>desired_order\<close>, in the order it is written.\<close>

definition desired_order :: "(string \<times> nat) list" where
  "desired_order =
     [(''SM'', 1), (''ME'', 2), (''LR'', 3), (''XL'', 4), (''2X'', 5), (''3X'', 6), (''4X'', 7),
      (''5X'', 8), (''6X'', 9), (''7X'', 10), (''8X'', 11), (''32'', 12), (''34'', 13),
      (''36'', 14), (''38'', 15), (''40'', 16), (''42'', 17), (''44'', 18), (''46'', 19),
      (''48'', 20), (''50'', 21)]"

text \<open>The sort key \<^verbatim>\<open>lambda x: desired_order[x[:2]]\<close>; a missing key raises.\<close>

definition size_key :: "string \<Rightarrow> py_error + nat" where
  "size_key x =
     (case map_of desired_order (take 2 x) of
        None \<Rightarrow> Inl (KeyError (take 2 x))
      | Some n \<Rightarrow> Inr n)"

text \<open>Applying a function that may raise to each element in turn; the first raise wins.\<close>

fun py_map :: "('a \<Rightarrow> py_error + 'b) \<Rightarrow> 'a list \<Rightarrow> py_error + 'b list" where
  "py_map f [] = Inr []"
| "py_map f (x # xs) =
     (case f x of
        Inl e \<Rightarrow> Inl e
      | Inr y \<Rightarrow> (case py_map f xs of Inl e \<Rightarrow> Inl e | Inr ys \<Rightarrow> Inr (y # ys)))"

text \<open>
  \<^verbatim>\<open>value.sort(key=...)\<close>: the key of every element is computed first (also for a list
  of one element), then the list is sorted stably by the keys.
\<close>

definition sort_sizes :: "string list \<Rightarrow> py_error + string list" where
  "sort_sizes v =
     (case py_map size_key v of
        Inl e \<Rightarrow> Inl e
      | Inr ks \<Rightarrow> Inr (sort_key (\<lambda>x. the (map_of desired_order (take 2 x))) v))"

text \<open>
  One pass of the first inner loop: \<^verbatim>\<open>size, quant = value[index].split('-')\<close> and the
  rewrite of \<^verbatim>\<open>value[index]\<close>.
\<close>

definition render_entry :: "string \<Rightarrow> py_error + string" where
  "render_entry x =
     (case py_split CHR ''-'' x of
        [size', quant] \<Rightarrow>
          (case py_int quant of
             Inl e \<Rightarrow> Inl e
           | Inr q \<Rightarrow> Inr (if q = 1 then size' else size' @ '' ('' @ quant @ '')''))
      | _ \<Rightarrow> Inl ValueError)"

text \<open>The second inner loop: the entries separated by \<^verbatim>\<open>', '\<close>.\<close>

fun join_sizes :: "string list \<Rightarrow> string" where
  "join_sizes [] = []"
| "join_sizes [x] = x"
| "join_sizes (x # y # ys) = x @ '', '' @ join_sizes (y # ys)"

text \<open>
  The body of the loop over the dictionary's items.  It returns the value as the loop
  leaves it in the dictionary (a list is sorted and rewritten in place) and the line
  appended to \<^verbatim>\<open>pick_list\<close>.
\<close>

definition render_group :: "string \<Rightarrow> pyval \<Rightarrow> py_error + (pyval \<times> string)" where
  "render_group key value =
     (case value of
        ListV v \<Rightarrow>
          (case sort_sizes v of
             Inl e \<Rightarrow> Inl e
           | Inr sorted_v \<Rightarrow>
               (case py_map render_entry sorted_v of
                  Inl e \<Rightarrow> Inl e
                | Inr rendered \<Rightarrow>
                    Inr (ListV rendered, key @ '' -> '' @ join_sizes rendered @ ''\<newline>'')))
      | StrV s \<Rightarrow>
          (case py_int s of
             Inl e \<Rightarrow> Inl e
           | Inr q \<Rightarrow>
               Inr (StrV s,
                    if q > 1 then key @ '' ... ('' @ s @ '')'' @ ''\<newline>''
                    else key @ ''\<newline>'')))"

fun render_groups :: "skus \<Rightarrow> py_error + (skus \<times> string list)" where
  "render_groups [] = Inr ([], [])"
| "render_groups ((key, value) # rest) =
     (case render_group key value of
        Inl e \<Rightarrow> Inl e
      | Inr (value', line) \<Rightarrow>
          (case render_groups rest of
             Inl e \<Rightarrow> Inl e
           | Inr (rest', pick_list) \<Rightarrow> Inr ((key, value') # rest', line # pick_list)))"

section \<open>The ledger and the Store object\<close>

record datetime =
  dt_year :: int
  dt_month :: int
  dt_day :: int
  dt_hour :: int
  dt_minute :: int
  dt_second :: int

text \<open>The two tables of one store: \<^verbatim>\<open>{store}_order\<close> and \<^verbatim>\<open>{store}_item\<close>.\<close>

record order_row =
  order_number :: string
  customer_name :: string
  order_date :: datetime
  is_new :: bool

record item_row =
  ord_num :: string
  sku :: string
  quantity :: nat

record ledger =
  orders :: "order_row list"
  items :: "item_row list"

text \<open>An order as the shipping platform returns it (the fields the code reads).\<close>

record api_item =
  item_sku :: string
  item_name :: string
  item_quantity :: nat

record api_order =
  orderNumber :: string
  billTo_name :: string
  orderDate :: string
  order_items :: "api_item list"

record log_dict =
  log_order_number :: string
  log_customer :: string
  log_date :: datetime
  log_is_new :: bool
  log_item_list :: "(string \<times> nat) list"

text \<open>
  The Store object, together with what it reaches through \<^verbatim>\<open>self.cnx\<close> (the store's
  tables; every statement is committed right after it is executed) and the files it
  writes.
\<close>

record store =
  store_name :: string
  awaiting_shipment_orders_list :: "api_order list"
  skus_grouped_by_style_to_size_and_quantity :: skus
  log :: "log_dict list"
  cnx :: ledger
  files :: "string \<rightharpoonup> string"

definition orders_file :: "string \<Rightarrow> string" where
  "orders_file name = ''__ORDERS ['' @ name @ '']__.txt''"

text \<open>
  \<^verbatim>\<open>create_pick_list\<close>: an exception raised in the loop leaves the method before the
  file is opened (and, uncaught by \<^verbatim>\<open>main.py\<close>, ends the program).  Otherwise the
  sorted lines replace the file's content.
\<close>

definition create_pick_list :: "store \<Rightarrow> py_error + store" where
  "create_pick_list st =
     (case render_groups (skus_grouped_by_style_to_size_and_quantity st) of
        Inl e \<Rightarrow> Inl e
      | Inr (d', pick_list) \<Rightarrow>
          Inr (st\<lparr>skus_grouped_by_style_to_size_and_quantity := d',
                  files := (files st)(orders_file (store_name st) \<mapsto> concat (sort pick_list))\<rparr>))"

section \<open>parse_awaiting_shipment_order_data\<close>

text \<open>
  \<^verbatim>\<open>datetime.datetime(year, month, day, hour, minute, second)\<close>: an argument that does
  not fit a C \<^verbatim>\<open>int\<close> raises \<^verbatim>\<open>OverflowError\<close>, and a field out of its range raises
  \<^verbatim>\<open>ValueError\<close>.
\<close>

definition fits_c_int :: "int \<Rightarrow> bool" where
  "fits_c_int n = (- 2147483648 \<le> n \<and> n \<le> 2147483647)"

definition is_leap :: "int \<Rightarrow> bool" where
  "is_leap y = (y mod 4 = 0 \<and> (y mod 100 \<noteq> 0 \<or> y mod 400 = 0))"

definition days_in_month :: "int \<Rightarrow> int \<Rightarrow> int" where
  "days_in_month y m =
     (if m = 2 then (if is_leap y then 29 else 28)
      else if m = 4 \<or> m = 6 \<or> m = 9 \<or> m = 11 then 30 else 31)"

definition datetime_new :: "int \<Rightarrow> int \<Rightarrow> int \<Rightarrow> int \<Rightarrow> int \<Rightarrow> int \<Rightarrow> py_error + datetime" where
  "datetime_new y mo d h mi s =
     (if \<not> list_all fits_c_int [y, mo, d, h, mi, s] then Inl OverflowError
      else if 1 \<le> y \<and> y \<le> 9999 \<and> 1 \<le> mo \<and> mo \<le> 12 \<and> 1 \<le> d \<and> d \<le> days_in_month y mo
         \<and> 0 \<le> h \<and> h \<le> 23 \<and> 0 \<le> mi \<and> mi \<le> 59 \<and> 0 \<le> s \<and> s \<le> 59
      then Inr \<lparr>dt_year = y, dt_month = mo, dt_day = d, dt_hour = h, dt_minute = mi, dt_second = s\<rparr>
      else Inl ValueError)"

text \<open>
  The order date: milliseconds cut off at the first \<^verbatim>\<open>'.'\<close>, then the three tuple
  assignments from \<^verbatim>\<open>split\<close>, the six calls of \<^verbatim>\<open>int\<close> and the constructor.
\<close>

definition parse_order_date :: "string \<Rightarrow> py_error + datetime" where
  "parse_order_date s =
     (case py_split CHR ''T'' (hd (py_split CHR ''.'' s)) of
        [date, time] \<Rightarrow>
          (case py_split CHR ''-'' date of
             [year, month, day] \<Rightarrow>
               (case py_split CHR '':'' time of
                  [hour, minute, second] \<Rightarrow>
                    (case py_map py_int [year, month, day, hour, minute, second] of
                       Inl e \<Rightarrow> Inl e
                     | Inr [y, mo, d, h, mi, sec] \<Rightarrow> datetime_new y mo d h mi sec
                     | Inr _ \<Rightarrow> Inl ValueError)
                | _ \<Rightarrow> Inl ValueError)
           | _ \<Rightarrow> Inl ValueError)
      | _ \<Rightarrow> Inl ValueError)"

text \<open>
  The SKU recorded for an item: an obsolete SKU is replaced through \<^verbatim>\<open>sku_dict\<close> (the
  table of the module \<^verbatim>\<open>sku_conversions\<close>, a parameter here), and an empty SKU is
  replaced by the item's description.
\<close>

definition item_sku_of :: "(string \<rightharpoonup> string) \<Rightarrow> api_item \<Rightarrow> string" where
  "item_sku_of sku_dict item =
     (let s = (case sku_dict (item_sku item) of Some s' \<Rightarrow> s' | None \<Rightarrow> item_sku item)
      in if s = [] then item_name item else s)"

text \<open>\<^verbatim>\<open>SELECT * FROM {store}_order WHERE order_number = %s\<close> and \<^verbatim>\<open>fetchone\<close>.\<close>

definition select_order :: "ledger \<Rightarrow> string \<Rightarrow> order_row option" where
  "select_order db order_num = find (\<lambda>r. order_number r = order_num) (orders db)"

text \<open>\<^verbatim>\<open>UPDATE {store}_order SET is_new = 0 WHERE order_number = %s\<close>.\<close>

definition update_not_new :: "ledger \<Rightarrow> string \<Rightarrow> ledger" where
  "update_not_new db order_num =
     db\<lparr>orders := map (\<lambda>r. if order_number r = order_num then r\<lparr>is_new := False\<rparr> else r) (orders db)\<rparr>"

definition insert_order :: "ledger \<Rightarrow> order_row \<Rightarrow> ledger" where
  "insert_order db r = db\<lparr>orders := orders db @ [r]\<rparr>"

definition insert_item :: "ledger \<Rightarrow> item_row \<Rightarrow> ledger" where
  "insert_item db r = db\<lparr>items := items db @ [r]\<rparr>"

text \<open>
  One iteration of the loop over the fetched orders.  An order found in the table is
  flagged; a new one is inserted, then each of its items, every statement followed by
  its own \<^verbatim>\<open>commit\<close>.  In both cases the order is appended to the log.
\<close>

definition parse_order :: "(string \<rightharpoonup> string) \<Rightarrow> store \<Rightarrow> api_order \<Rightarrow> py_error + store" where
  "parse_order sku_dict st order =
     (case parse_order_date (orderDate order) of
        Inl e \<Rightarrow> Inl e
      | Inr order_datetime \<Rightarrow>
          (let order_num = orderNumber order;
               cust_name = billTo_name order;
               curr_order_items_list =
                 map (\<lambda>item. (item_sku_of sku_dict item, item_quantity item)) (order_items order)
           in
           case select_order (cnx st) order_num of
             Some row \<Rightarrow>
               Inr (st\<lparr>cnx := update_not_new (cnx st) order_num,
                       log := log st @
                         [\<lparr>log_order_number = order_num, log_customer = cust_name,
                           log_date = order_datetime, log_is_new = False,
                           log_item_list = curr_order_items_list\<rparr>]\<rparr>)
           | None \<Rightarrow>
               Inr (st\<lparr>cnx :=
                         foldl (\<lambda>db (s, q). insert_item db \<lparr>ord_num = order_num, sku = s, quantity = q\<rparr>)
                           (insert_order (cnx st)
                              \<lparr>order_number = order_num, customer_name = cust_name,
                               order_date = order_datetime, is_new = True\<rparr>)
                           curr_order_items_list,
                       log := log st @
                         [\<lparr>log_order_number = order_num, log_customer = cust_name,
                           log_date = order_datetime, log_is_new = True,
                           log_item_list = curr_order_items_list\<rparr>]\<rparr>)))"

fun parse_orders :: "(string \<rightharpoonup> string) \<Rightarrow> store \<Rightarrow> api_order list \<Rightarrow> py_error + store" where
  "parse_orders sku_dict st [] = Inr st"
| "parse_orders sku_dict st (order # rest) =
     (case parse_order sku_dict st order of
        Inl e \<Rightarrow> Inl e
      | Inr st' \<Rightarrow> parse_orders sku_dict st' rest)"

definition parse_awaiting_shipment_order_data :: "(string \<rightharpoonup> string) \<Rightarrow> store \<Rightarrow> py_error + store" where
  "parse_awaiting_shipment_order_data sku_dict st =
     parse_orders sku_dict st (awaiting_shipment_orders_list st)"

text \<open>
  The ledger states made durable by the \<^verbatim>\<open>commit\<close> calls while one order is processed,
  in the order of the commits: one state for a known order, and for a new order
  the state after the order row and the state after each item row.
\<close>

fun item_commits :: "ledger \<Rightarrow> item_row list \<Rightarrow> ledger list" where
  "item_commits db [] = []"
| "item_commits db (r # rs) = insert_item db r # item_commits (insert_item db r) rs"

definition parse_order_commits :: "(string \<rightharpoonup> string) \<Rightarrow> ledger \<Rightarrow> api_order \<Rightarrow> py_error + ledger list" where
  "parse_order_commits sku_dict db order =
     (case parse_order_date (orderDate order) of
        Inl e \<Rightarrow> Inl e
      | Inr order_datetime \<Rightarrow>
          (case select_order db (orderNumber order) of
             Some row \<Rightarrow> Inr [update_not_new db (orderNumber order)]
           | None \<Rightarrow>
               (let db1 = insert_order db
                            \<lparr>order_number = orderNumber order, customer_name = billTo_name order,
                             order_date = order_datetime, is_new = True\<rparr>
                in Inr (db1 # item_commits db1
                          (map (\<lambda>item. \<lparr>ord_num = orderNumber order, sku = item_sku_of sku_dict item,
                                         quantity = item_quantity item\<rparr>) (order_items order))))))"

section \<open>The queries behind the pick list and the reports\<close>

text \<open>
  \<^verbatim>\<open>{store}_item INNER JOIN {store}_order ON ord_num = order_number WHERE is_new = 1\<close>:
  one row for each pair of an item and a matching new order.
\<close>

definition new_order_items :: "ledger \<Rightarrow> (item_row \<times> order_row) list" where
  "new_order_items db =
     concat (map (\<lambda>i. map (\<lambda>ord. (i, ord))
                          (filter (\<lambda>ord. ord_num i = order_number ord \<and> is_new ord) (orders db)))
                 (items db))"

text \<open>
  \<^verbatim>\<open>SELECT sku, SUM(quantity) ... GROUP BY sku\<close>: one row for each distinct SKU, with
  the total of its quantities.  (SQL leaves the order of the groups open.)
\<close>

definition sku_totals :: "ledger \<Rightarrow> (string \<times> nat) list" where
  "sku_totals db =
     (let rows = map fst (new_order_items db)
      in map (\<lambda>s. (s, sum_list (map quantity (filter (\<lambda>i. sku i = s) rows))))
             (remdups (map sku rows)))"

definition clean_and_normalize_order_data :: "store \<Rightarrow> store" where
  "clean_and_normalize_order_data st =
     st\<lparr>skus_grouped_by_style_to_size_and_quantity :=
          normalize_rows (skus_grouped_by_style_to_size_and_quantity st) (sku_totals (cnx st))\<rparr>"

text \<open>\<^verbatim>\<open>open(name, 'a')\<close> and \<^verbatim>\<open>write\<close>: the text is added at the end; a missing file is created.\<close>

definition append_file :: "(string \<rightharpoonup> string) \<Rightarrow> string \<Rightarrow> string \<Rightarrow> (string \<rightharpoonup> string)" where
  "append_file fs name txt = fs(name \<mapsto> (case fs name of None \<Rightarrow> [] | Some old \<Rightarrow> old) @ txt)"

subsection \<open>customers_with_multiple_orders\<close>

text \<open>
  The temporary table: \<^verbatim>\<open>SELECT customer_name, COUNT(customer_name) FROM {store}_order
  WHERE is_new = 1 GROUP BY customer_name HAVING name_count > 1\<close>.
\<close>

definition customer_with_multiple_order :: "ledger \<Rightarrow> (string \<times> nat) list" where
  "customer_with_multiple_order db =
     (let new_orders = filter is_new (orders db)
      in filter (\<lambda>(c, name_count). name_count > 1)
           (map (\<lambda>c. (c, length (filter (\<lambda>ord. customer_name ord = c) new_orders)))
                (remdups (map customer_name new_orders))))"

text \<open>
  \<^verbatim>\<open>SELECT customer_name, order_number FROM {store}_order WHERE customer_name IN
  (SELECT customer_name FROM customer_with_multiple_order)\<close>.
\<close>

definition select_customer_orders :: "ledger \<Rightarrow> (string \<times> string) list" where
  "select_customer_orders db =
     map (\<lambda>ord. (customer_name ord, order_number ord))
       (filter (\<lambda>ord. customer_name ord \<in> fst ` set (customer_with_multiple_order db)) (orders db))"

text \<open>The loop filling \<^verbatim>\<open>order_info_dict\<close>.\<close>

definition add_order_info :: "(string \<times> string list) list \<Rightarrow> string \<times> string \<Rightarrow> (string \<times> string list) list" where
  "add_order_info d row =
     (case map_of d (fst row) of
        None \<Rightarrow> AList.update (fst row) [snd row] d
      | Some l \<Rightarrow> AList.update (fst row) (l @ [snd row]) d)"

definition order_info_dict :: "ledger \<Rightarrow> (string \<times> string list) list" where
  "order_info_dict db = foldl add_order_info [] (select_customer_orders db)"

definition customers_report :: "(string \<times> string list) list \<Rightarrow> string" where
  "customers_report d =
     ''\<newline>CUSTOMERS WITH MORE THAN ONE ORDER:\<newline>\<newline>'' @
     (if d \<noteq> [] then
        concat (map (\<lambda>(key, value).
                  key @ '' - '' @ py_str (length value) @ '' Orders:\<newline>'' @ concat value @ ''\<newline>\<newline>'') d)
      else ''NO CUSTOMERS WITH MULTIPLE ORDERS'')"

definition customers_with_multiple_orders :: "store \<Rightarrow> store" where
  "customers_with_multiple_orders st =
     st\<lparr>files := append_file (files st) (orders_file (store_name st))
                   (customers_report (order_info_dict (cnx st)))\<rparr>"

subsection \<open>orders_containing_an_item_having_a_quantity_greater_than_one\<close>

text \<open>
  The rows \<^verbatim>\<open>(order_number, customer_name, sku, quantity)\<close> of the join with
  \<^verbatim>\<open>O.is_new = 1 AND I.quantity > 1\<close>.
\<close>

definition order_with_multiple_quantity :: "ledger \<Rightarrow> (string \<times> string \<times> string \<times> nat) list" where
  "order_with_multiple_quantity db =
     map (\<lambda>(i, ord). (order_number ord, customer_name ord, sku i, quantity i))
       (filter (\<lambda>(i, ord). quantity i > 1) (new_order_items db))"

definition quantity_report :: "(string \<times> string \<times> string \<times> nat) list \<Rightarrow> string" where
  "quantity_report item_list =
     ''\<newline>ORDERS WITH MORE THAN ONE ITEM QUANTITY:\<newline>\<newline>'' @
     (if item_list \<noteq> [] then
        concat (map (\<lambda>(order_num, customer, s, q).
                  order_num @ '' - '' @ customer @ '' - '' @ s @ '' ('' @ py_str q @ '')\<newline>'') item_list)
      else ''NO ORDERS CONTAINING AN ITEM HAVING A QUANTITY GREATER THAN ONE'')"

definition orders_containing_an_item_having_a_quantity_greater_than_one :: "store \<Rightarrow> store" where
  "orders_containing_an_item_having_a_quantity_greater_than_one st =
     st\<lparr>files := append_file (files st) (orders_file (store_name st))
                   (quantity_report (order_with_multiple_quantity (cnx st)))\<rparr>"

section \<open>Reading the grouping dictionary\<close>

text \<open>
  The entries recorded under a key when its value is a list, and whether a key is bound
  to a quantity string (a group without sizes).
\<close>

definition group_entries :: "skus \<Rightarrow> string \<Rightarrow> string list" where
  "group_entries d k = (case map_of d k of Some (ListV l) \<Rightarrow> l | _ \<Rightarrow> [])"

definition is_scalar_key :: "skus \<Rightarrow> string \<Rightarrow> bool" where
  "is_scalar_key d k = (case map_of d k of Some (StrV _) \<Rightarrow> True | _ \<Rightarrow> False)"

text \<open>A key of two pieces whose first piece is \<^verbatim>\<open>PREM\<close>: the form of the shirt group keys.\<close>

definition prem_pair :: "string \<Rightarrow> bool" where
  "prem_pair k = (hd (py_split CHR ''-'' k) = ''PREM'' \<and> length (py_split CHR ''-'' k) = 2)"

section \<open>The pick list as the specification words it\<close>

text \<open>
  A group of the specification: a list of (size, quantity) entries, or a quantity alone.
\<close>

datatype sku_group = Sized "(string \<times> nat) list" | Unsized nat

text \<open>
  The size comparator of the specification: the chain
  \<^verbatim>\<open>SM<ME<LR<XL<2X<3X<4X<5X<6X<7X<8X<32<34<36<38<40<42<44<46<48<50\<close>.  The class of a
  size label is its first two characters, and a label is ranked by the place of its
  class in the chain.
\<close>

definition size_classes :: "string list" where
  "size_classes =
     [''SM'', ''ME'', ''LR'', ''XL'', ''2X'', ''3X'', ''4X'', ''5X'', ''6X'', ''7X'', ''8X'',
      ''32'', ''34'', ''36'', ''38'', ''40'', ''42'', ''44'', ''46'', ''48'', ''50'']"

fun place :: "'a \<Rightarrow> 'a list \<Rightarrow> nat option" where
  "place x [] = None"
| "place x (y # ys) = (if x = y then Some 0 else map_option Suc (place x ys))"

definition size_rank :: "string \<Rightarrow> nat" where
  "size_rank sz = the (place (take 2 sz) size_classes)"

definition known_size :: "string \<Rightarrow> bool" where
  "known_size sz = (take 2 sz \<in> set size_classes)"

text \<open>Texts joined with a separator between neighbours.\<close>

fun spec_join :: "string \<Rightarrow> string list \<Rightarrow> string" where
  "spec_join sep [] = []"
| "spec_join sep (x # xs) = x @ concat (map (\<lambda>y. sep @ y) xs)"

text \<open>An entry is rendered as \<^verbatim>\<open>SIZE\<close> when its quantity is 1, else as \<^verbatim>\<open>SIZE (quantity)\<close>.\<close>

definition spec_entry :: "string \<times> nat \<Rightarrow> string" where
  "spec_entry e = (if snd e = 1 then fst e else fst e @ '' ('' @ py_str (snd e) @ '')'')"

text \<open>
  The line of a group as the claim words it: the key, \<^verbatim>\<open>' -> '\<close> and the entries sorted
  by the size comparator and joined with \<^verbatim>\<open>', '\<close>; for a quantity alone, the key when
  the quantity is 1, else the key followed by \<^verbatim>\<open>' ... (quantity)'\<close>.
\<close>

definition spec_line :: "string \<Rightarrow> sku_group \<Rightarrow> string" where
  "spec_line k g =
     (case g of
        Sized es \<Rightarrow>
          k @ '' -> '' @ spec_join '', '' (map spec_entry (sort_key (\<lambda>e. size_rank (fst e)) es))
      | Unsized q \<Rightarrow> if q = 1 then k else k @ '' ... ('' @ py_str q @ '')'')"

text \<open>
  The file as the claim words it: the rendered lines sorted, then written one per line.
\<close>

definition spec_pick_list :: "(string \<times> sku_group) list \<Rightarrow> string" where
  "spec_pick_list groups =
     concat (map (\<lambda>l. l @ ''\<newline>'') (sort (map (\<lambda>p. spec_line (fst p) (snd p)) groups)))"

text \<open>
  The line and the file as amended: a quantity alone is shown when it is greater than 1,
  and the lines are sorted with their newline as their last character.
\<close>

definition amended_line :: "string \<Rightarrow> sku_group \<Rightarrow> string" where
  "amended_line k g =
     (case g of
        Sized es \<Rightarrow>
          k @ '' -> '' @ spec_join '', '' (map spec_entry (sort_key (\<lambda>e. size_rank (fst e)) es))
      | Unsized q \<Rightarrow> if 1 < q then k @ '' ... ('' @ py_str q @ '')'' else k)"

definition amended_pick_list :: "(string \<times> sku_group) list \<Rightarrow> string" where
  "amended_pick_list groups =
     concat (sort (map (\<lambda>p. amended_line (fst p) (snd p) @ ''\<newline>'') groups))"

text \<open>
  How normalization stores a group in the dictionary: an entry as \<^verbatim>\<open>SIZE-QTY\<close>, a
  quantity alone as its decimal string.
\<close>

definition stored_entry :: "string \<times> nat \<Rightarrow> string" where
  "stored_entry e = fst e @ ''-'' @ py_str (snd e)"

definition stored_value :: "sku_group \<Rightarrow> pyval" where
  "stored_value g =
     (case g of Sized es \<Rightarrow> ListV (map stored_entry es) | Unsized q \<Rightarrow> StrV (py_str q))"

text \<open>
  The groups whose pick list is built without an error: a size label is one piece of a
  SKU (it holds no \<^verbatim>\<open>'-'\<close>) and its class is in the chain.
\<close>

definition sizes_known :: "sku_group \<Rightarrow> bool" where
  "sizes_known g =
     (case g of
        Sized es \<Rightarrow> list_all (\<lambda>e. CHR ''-'' \<notin> set (fst e) \<and> known_size (fst e)) es
      | Unsized q \<Rightarrow> True)"

section \<open>Rows of a new order, and data for the examples\<close>

text \<open>The order row and the item rows that the branch for a new order inserts.\<close>

definition order_row_of :: "api_order \<Rightarrow> datetime \<Rightarrow> order_row" where
  "order_row_of order dt =
     \<lparr>order_number = orderNumber order, customer_name = billTo_name order,
      order_date = dt, is_new = True\<rparr>"

definition item_rows_of :: "(string \<rightharpoonup> string) \<Rightarrow> api_order \<Rightarrow> item_row list" where
  "item_rows_of sku_dict order =
     map (\<lambda>item. \<lparr>ord_num = orderNumber order, sku = item_sku_of sku_dict item,
                    quantity = item_quantity item\<rparr>) (order_items order)"

text \<open>An order dated 15 January 2024, its ledger row, and a store that has fetched orders.\<close>

definition example_date :: datetime where
  "example_date = \<lparr>dt_year = 2024, dt_month = 1, dt_day = 15, dt_hour = 10, dt_minute = 30, dt_second = 0\<rparr>"

definition example_order :: "string \<Rightarrow> string \<Rightarrow> api_item list \<Rightarrow> api_order" where
  "example_order n c its =
     \<lparr>orderNumber = n, billTo_name = c, orderDate = ''2024-01-15T10:30:00.0000000'',
      order_items = its\<rparr>"

definition example_row :: "string \<Rightarrow> string \<Rightarrow> bool \<Rightarrow> order_row" where
  "example_row n c b = \<lparr>order_number = n, customer_name = c, order_date = example_date, is_new = b\<rparr>"

definition example_store :: "api_order list \<Rightarrow> ledger \<Rightarrow> store" where
  "example_store fetched db =
     \<lparr>store_name = ''etsy'', awaiting_shipment_orders_list = fetched,
      skus_grouped_by_style_to_size_and_quantity = [], log = [], cnx = db, files = Map.empty\<rparr>"

text \<open>A store with a given grouping dictionary and given files.\<close>

definition pick_store :: "skus \<Rightarrow> (string \<rightharpoonup> string) \<Rightarrow> store" where
  "pick_store d fs =
     \<lparr>store_name = ''etsy'', awaiting_shipment_orders_list = [],
      skus_grouped_by_style_to_size_and_quantity = d, log = [],
      cnx = \<lparr>orders = [], items = []\<rparr>, files = fs\<rparr>"

section \<open>Facts about the built-ins\<close>

lemma py_split_nonempty: "py_split c s \<noteq> []"
  by (induction s) (auto simp: Let_def)

lemma py_split_no_sep: "c \<notin> set s \<Longrightarrow> py_split c s = [s]"
  by (induction s) (auto simp: Let_def)

lemma py_split_append: "c \<notin> set a \<Longrightarrow> py_split c (a @ c # r) = a # py_split c r"
  by (induction a) (auto simp: Let_def)

lemma py_split_pieces: "p \<in> set (py_split c s) \<Longrightarrow> c \<notin> set p"
proof (induction s arbitrary: p)
  case Nil
  then show ?case by simp
next
  case (Cons x xs)
  then show ?case
    using py_split_nonempty [of c xs]
    by (cases "py_split c xs") (auto simp: Let_def split: if_splits)
qed

lemma py_split_single: "py_split c s = [a] \<Longrightarrow> s = a"
proof (induction s arbitrary: a)
  case Nil
  then show ?case by simp
next
  case (Cons x xs)
  then show ?case
    using py_split_nonempty [of c xs]
    by (cases "py_split c xs") (auto simp: Let_def split: if_splits)
qed

lemma py_split_two: "py_split c s = [a, b] \<Longrightarrow> s = a @ c # b"
proof (induction s arbitrary: a)
  case Nil
  then show ?case by simp
next
  case (Cons x xs)
  then show ?case
    using py_split_nonempty [of c xs]
    by (cases "py_split c xs") (auto simp: Let_def split: if_splits dest: py_split_single)
qed

lemma py_split3: 
  "c \<notin> set a \<Longrightarrow> c \<notin> set b \<Longrightarrow> c \<notin> set d \<Longrightarrow> py_split c (a @ c # b @ c # d) = [a, b, d]"
  by (simp add: py_split_append py_split_no_sep)

lemma py_split4: 
  "c \<notin> set a \<Longrightarrow> c \<notin> set b \<Longrightarrow> c \<notin> set d \<Longrightarrow> c \<notin> set e \<Longrightarrow>
   py_split c (a @ c # b @ c # d @ c # e) = [a, b, d, e]"
  by (simp add: py_split_append py_split_no_sep)

lemma py_str_nonempty: "py_str n \<noteq> []"
  by (subst py_str.simps) simp

lemma below_ten_cases:
  "d < 10 \<Longrightarrow> d = 0 \<or> d = 1 \<or> d = 2 \<or> d = 3 \<or> d = 4 \<or> d = 5 \<or> d = 6 \<or> d = 7 \<or> d = 8 \<or> d = (9::nat)"
  by arith

lemma is_digit_digit_char: "d < 10 \<Longrightarrow> is_digit (digit_char d)"
  by (drule below_ten_cases) (auto simp: is_digit_def digit_char_def)

lemma digit_val_digit_char: "d < 10 \<Longrightarrow> digit_val (digit_char d) = d"
  by (drule below_ten_cases) (auto simp: digit_val_def digit_char_def)

lemma py_str_small: "n < 10 \<Longrightarrow> py_str n = [digit_char n]"
  by (subst py_str.simps) simp

lemma py_str_digits: "list_all is_digit (py_str n)"
  by (induction n rule: py_str.induct) (subst py_str.simps, simp add: is_digit_digit_char)

lemma digits_val_py_str: "digits_val (py_str n) = n"
  by (induction n rule: py_str.induct)
     (subst py_str.simps, simp add: digits_val_def digit_val_digit_char)

lemma is_digit_not_sign: "is_digit c \<Longrightarrow> c \<noteq> CHR ''-'' \<and> c \<noteq> CHR ''+''"
  by (auto simp: is_digit_def)

lemma digits_no_dash: "list_all is_digit s \<Longrightarrow> CHR ''-'' \<notin> set s"
  by (auto simp: list_all_iff dest: is_digit_not_sign)

lemma py_str_no_dash: "CHR ''-'' \<notin> set (py_str n)"
  by (rule digits_no_dash) (rule py_str_digits)

lemma py_int_digits_py_str: "py_int_digits (py_str n) = Inr n"
  by (simp add: py_int_digits_def py_str_nonempty py_str_digits digits_val_py_str)

lemma py_int_py_str: "py_int (py_str n) = Inr (int n)"
proof (cases "py_str n")
  case Nil
  then show ?thesis by (simp add: py_str_nonempty)
next
  case (Cons c r)
  have "is_digit c"
    using py_str_digits [of n] Cons by simp
  then have "c \<noteq> CHR ''-''" "c \<noteq> CHR ''+''"
    by (simp_all add: is_digit_not_sign)
  then show ?thesis
    using py_int_digits_py_str [of n] Cons by (simp add: py_int_def)
qed

section \<open>Normalization of SKUs\<close>

lemma append_entry_list:
  "\<not> is_scalar_key d k \<Longrightarrow>
   append_entry d k e = Inr (AList.update k (ListV (group_entries d k @ [e])) d)"
  by (auto simp: append_entry_def is_scalar_key_def group_entries_def
           split: option.splits pyval.splits)


text \<open>A brand without a rule: the raw SKU is stored with its quantity.\<close>

lemma unknown_brand_fallback:
  assumes "hd (py_split CHR ''-'' SKU) \<notin>
             {''PREM'', ''PremJeans'', ''PremiereJeans'', ''PremTee'', ''PremiereLSTee''}"
  shows "normalize_item d (SKU, q) = AList.update SKU (StrV (py_str q)) d"
  using assms by (simp add: normalize_item_def normalize_try_def Let_def del: py_split.simps)

text \<open>
  A jeans SKU with a wrong number of pieces: the tuple assignment raises and the
  handler stores the raw SKU.
\<close>

lemma jeans_wrong_count_fallback:
  assumes "hd (py_split CHR ''-'' SKU) \<in> {''PremJeans'', ''PremiereJeans''}"
    and "length (py_split CHR ''-'' SKU) \<noteq> 3"
  shows "normalize_item d (SKU, q) = AList.update SKU (StrV (py_str q)) d"
proof -
  have "normalize_try d SKU q = Inl ValueError"
    using assms unfolding normalize_try_def Let_def
    by (auto split: list.splits)
  then show ?thesis by (simp add: normalize_item_def)
qed

text \<open>
  A shirt SKU with neither three nor four pieces: no branch is taken, nothing is
  raised, and the dictionary stays as it was.
\<close>

lemma prem_wrong_count_dropped:
  assumes "hd (py_split CHR ''-'' SKU) \<in> {''PREM'', ''PremTee'', ''PremiereLSTee''}"
    and "length (py_split CHR ''-'' SKU) \<noteq> 3" "length (py_split CHR ''-'' SKU) \<noteq> 4"
  shows "normalize_item d (SKU, q) = d"
proof -
  have "normalize_try d SKU q = Inr d"
    using assms unfolding normalize_try_def Let_def by auto
  then show ?thesis by (simp add: normalize_item_def)
qed

text \<open>
  No dictionary built from the empty one binds a key \<^verbatim>\<open>PREM-<style>\<close> to a quantity
  string: a raw SKU is stored only for a brand without a rule or after an exception,
  and a \<^verbatim>\<open>PREM\<close> SKU of two pieces raises none.
\<close>

lemma is_scalar_key_update_list:
  "is_scalar_key (AList.update k (ListV l) d) k' \<longleftrightarrow> k' \<noteq> k \<and> is_scalar_key d k'"
  by (simp add: is_scalar_key_def update_conv')

lemma is_scalar_key_update_str:
  "is_scalar_key (AList.update k (StrV s) d) k' \<longleftrightarrow> k' = k \<or> is_scalar_key d k'"
  by (simp add: is_scalar_key_def update_conv')

lemma append_entry_scalar:
  "append_entry d k e = Inr d' \<Longrightarrow> is_scalar_key d' k' \<Longrightarrow> is_scalar_key d k'"
  by (auto simp: append_entry_def is_scalar_key_update_list split: option.splits pyval.splits)

lemma length3_cases: "length xs = 3 \<Longrightarrow> \<exists>a b c. xs = [a, b, c]"
  by (auto simp: numeral_3_eq_3 length_Suc_conv)

lemma length4_cases: "length xs = 4 \<Longrightarrow> \<exists>a b c e. xs = [a, b, c, e]"
proof -
  assume "length xs = 4"
  then have "length xs = Suc (Suc (Suc (Suc 0)))" by simp
  then show ?thesis by (auto simp: length_Suc_conv)
qed

lemma normalize_try_Inr_cases:
  assumes "normalize_try d SKU q = Inr d'"
  shows "d' = d \<or> (\<exists>key e. append_entry d key e = Inr d')
         \<or> (d' = AList.update SKU (StrV (py_str q)) d \<and> hd (py_split CHR ''-'' SKU) \<noteq> ''PREM'')"
proof -
  let ?a = "py_split CHR ''-'' SKU"
  consider (three) "length ?a = 3" | (four) "length ?a = 4"
    | (other) "length ?a \<noteq> 3" "length ?a \<noteq> 4"
    by blast
  then show ?thesis
  proof cases
    case three
    then obtain a b c where abc: "?a = [a, b, c]"
      using length3_cases by blast
    from assms show ?thesis
      unfolding normalize_try_def Let_def abc
      by (simp split: if_splits) blast+
  next
    case four
    then obtain a b c e where abc: "?a = [a, b, c, e]"
      using length4_cases by blast
    from assms show ?thesis
      unfolding normalize_try_def Let_def abc
      by (simp split: if_splits) blast+
  next
    case other
    have jeans: "(case ?a of [jean, color, size'] \<Rightarrow> F jean color size' | _ \<Rightarrow> Inl ValueError) =
                   Inl ValueError" for F :: "string \<Rightarrow> string \<Rightarrow> string \<Rightarrow> py_error + skus"
      using other(1) by (auto split: list.splits)
    from assms other show ?thesis
      unfolding normalize_try_def Let_def jeans
      by (simp split: if_splits)
  qed
qed

lemma normalize_try_scalar:
  assumes "normalize_try d SKU q = Inr d'" and "is_scalar_key d' k"
  shows "is_scalar_key d k \<or> (k = SKU \<and> hd (py_split CHR ''-'' SKU) \<noteq> ''PREM'')"
proof -
  from normalize_try_Inr_cases [OF assms(1)]
  consider "d' = d" | key e where "append_entry d key e = Inr d'"
    | "d' = AList.update SKU (StrV (py_str q)) d" "hd (py_split CHR ''-'' SKU) \<noteq> ''PREM''"
    by blast
  then show ?thesis
  proof cases
    case 1
    with assms(2) show ?thesis by simp
  next
    case 2
    from append_entry_scalar [OF 2 assms(2)] show ?thesis by simp
  next
    case 3
    with assms(2) show ?thesis by (auto simp: is_scalar_key_update_str)
  qed
qed

lemma normalize_try_raises:
  assumes "normalize_try d SKU q = Inl e"
  shows "\<not> prem_pair SKU"
proof
  assume "prem_pair SKU"
  then have "hd (py_split CHR ''-'' SKU) = ''PREM''" "length (py_split CHR ''-'' SKU) = 2"
    by (simp_all add: prem_pair_def)
  then have "normalize_try d SKU q = Inr d"
    unfolding normalize_try_def Let_def by simp
  with assms show False by simp
qed

lemma normalize_item_scalar:
  assumes "is_scalar_key (normalize_item d (SKU, q)) k"
  shows "is_scalar_key d k \<or> \<not> prem_pair k"
proof (cases "normalize_try d SKU q")
  case (Inl e)
  then have "normalize_item d (SKU, q) = AList.update SKU (StrV (py_str q)) d"
    by (simp add: normalize_item_def)
  with assms have "k = SKU \<or> is_scalar_key d k"
    by (simp add: is_scalar_key_update_str)
  with normalize_try_raises [OF Inl] show ?thesis by blast
next
  case (Inr d')
  then have "normalize_item d (SKU, q) = d'"
    by (simp add: normalize_item_def)
  with assms normalize_try_scalar [OF Inr, of k] show ?thesis
    by (auto simp: prem_pair_def)
qed

lemma normalize_rows_scalar:
  assumes "\<And>k. is_scalar_key d k \<Longrightarrow> \<not> prem_pair k"
    and "is_scalar_key (normalize_rows d rows) k"
  shows "\<not> prem_pair k"
  using assms
proof (induction rows arbitrary: d)
  case Nil
  then show ?case by (simp add: normalize_rows_def)
next
  case (Cons row rows)
  obtain SKU q where row: "row = (SKU, q)" by (cases row)
  have step: "\<not> prem_pair k'" if "is_scalar_key (normalize_item d row) k'" for k'
    using normalize_item_scalar [of d SKU q k'] that row Cons.prems(1) by blast
  from Cons.prems(2) have "is_scalar_key (normalize_rows (normalize_item d row) rows) k"
    by (simp add: normalize_rows_def)
  from Cons.IH [OF step this] show ?case .
qed

lemma prem_key_never_scalar:
  assumes "CHR ''-'' \<notin> set t"
  shows "\<not> is_scalar_key (normalize_rows [] rows) (''PREM-'' @ t)"
proof
  assume "is_scalar_key (normalize_rows [] rows) (''PREM-'' @ t)"
  then have "\<not> prem_pair (''PREM-'' @ t)"
    by (rule normalize_rows_scalar [rotated]) (simp add: is_scalar_key_def)
  moreover have "py_split CHR ''-'' (''PREM'' @ CHR ''-'' # t) = ''PREM'' # py_split CHR ''-'' t"
    by (rule py_split_append) simp
  then have "prem_pair (''PREM-'' @ t)"
    using assms by (simp add: prem_pair_def py_split_no_sep)
  ultimately show False by simp
qed

text \<open>
  Claim C1.  Every item whose SKU matches no brand pattern (an unknown brand, or a known
  brand with a wrong number of pieces) is to end up in the dictionary under its raw SKU
  with its total quantity.  The code does so for an unknown brand and for the jeans
  brands, but a \<^verbatim>\<open>PREM\<close>, \<^verbatim>\<open>PremTee\<close> or \<^verbatim>\<open>PremiereLSTee\<close> SKU with neither three nor
  four pieces falls through the \<^verbatim>\<open>if\<close>/\<open>elif\<close> without an \<^verbatim>\<open>else\<close>: no entry is made and
  nothing is raised.  Evaluated here: \<^verbatim>\<open>PREM-100\<close> and a five-piece \<^verbatim>\<open>PremTee\<close> SKU leave
  the dictionary empty, where the two-piece jeans SKU is kept.
\<close>

theorem C1_prem_wrong_segment_count_dropped:
  "normalize_rows [] [(''PREM-100'', 2)] = []
   \<and> normalize_rows [] [(''PremTee-NAVY-524-XL-X'', 1)] = []
   \<and> normalize_rows [] [(''PremJeans-BLK'', 2)] = [(''PremJeans-BLK'', StrV ''2'')]"
  by (simp add: normalize_rows_def normalize_item_def normalize_try_def py_str_small
        digit_char_def)



text \<open>A key bound to a quantity string takes no entry: the \<^verbatim>\<open>append\<close> raises.\<close>

lemma append_entry_raises:
  "is_scalar_key d k \<Longrightarrow> append_entry d k e = Inl AttributeError"
  by (auto simp: append_entry_def is_scalar_key_def split: option.splits pyval.splits)

text \<open>
  Claim C8, as the code has it.  For the brands \<^verbatim>\<open>PremTee\<close> and \<^verbatim>\<open>PremiereLSTee\<close>, a SKU
  of three pieces \<^verbatim>\<open><brand>-<style>-<size>\<close> has the group key \<^verbatim>\<open><style>-<brand>\<close> and a SKU of
  four pieces \<^verbatim>\<open><brand>-<seg1>-<seg2>-<size>\<close> the group key \<^verbatim>\<open><brand>-<seg2>-<seg1>\<close>.  When
  the key is not bound to a quantity string, the entry is recorded under it with the
  size \<^verbatim>\<open>XXL\<close> written as \<^verbatim>\<open>2XL\<close>.  When the key is bound to a quantity string (a raw
  SKU equal to the key was stored before), the \<^verbatim>\<open>append\<close> raises and the handler stores
  the item under its raw SKU with its quantity: no group, and \<^verbatim>\<open>XXL\<close> stays as it is.
\<close>

theorem C8_tee_sizes:
  assumes brand: "brand = ''PremTee'' \<or> brand = ''PremiereLSTee''"
    and segs: "CHR ''-'' \<notin> set seg1" "CHR ''-'' \<notin> set seg2" "CHR ''-'' \<notin> set sz"
  shows "normalize_item d (brand @ ''-'' @ seg1 @ ''-'' @ sz, q) =
           (if is_scalar_key d (seg1 @ ''-'' @ brand)
            then AList.update (brand @ ''-'' @ seg1 @ ''-'' @ sz) (StrV (py_str q)) d
            else AList.update (seg1 @ ''-'' @ brand)
                   (ListV (group_entries d (seg1 @ ''-'' @ brand) @
                             [(if sz = ''XXL'' then ''2XL'' else sz) @ ''-'' @ py_str q])) d)
       \<and> normalize_item d (brand @ ''-'' @ seg1 @ ''-'' @ seg2 @ ''-'' @ sz, q) =
           (if is_scalar_key d (brand @ ''-'' @ seg2 @ ''-'' @ seg1)
            then AList.update (brand @ ''-'' @ seg1 @ ''-'' @ seg2 @ ''-'' @ sz) (StrV (py_str q)) d
            else AList.update (brand @ ''-'' @ seg2 @ ''-'' @ seg1)
                   (ListV (group_entries d (brand @ ''-'' @ seg2 @ ''-'' @ seg1) @
                             [(if sz = ''XXL'' then ''2XL'' else sz) @ ''-'' @ py_str q])) d)"
proof -
  have nb: "CHR ''-'' \<notin> set brand"
    using brand by auto
  have sp3: "py_split CHR ''-'' (brand @ ''-'' @ seg1 @ ''-'' @ sz) = [brand, seg1, sz]"
    using py_split3 [of "CHR ''-''" brand seg1 sz] nb segs by simp
  have sp4: "py_split CHR ''-'' (brand @ ''-'' @ seg1 @ ''-'' @ seg2 @ ''-'' @ sz) =
               [brand, seg1, seg2, sz]"
    using py_split4 [of "CHR ''-''" brand seg1 seg2 sz] nb segs by simp
  have t3: "normalize_try d (brand @ ''-'' @ seg1 @ ''-'' @ sz) q =
              append_entry d (seg1 @ ''-'' @ brand)
                ((if sz = ''XXL'' then ''2XL'' else sz) @ ''-'' @ py_str q)"
    unfolding normalize_try_def Let_def sp3 using brand by auto
  have t4: "normalize_try d (brand @ ''-'' @ seg1 @ ''-'' @ seg2 @ ''-'' @ sz) q =
              append_entry d (brand @ ''-'' @ seg2 @ ''-'' @ seg1)
                ((if sz = ''XXL'' then ''2XL'' else sz) @ ''-'' @ py_str q)"
    unfolding normalize_try_def Let_def sp4 using brand by auto
  show ?thesis
    by (simp add: normalize_item_def t3 t4 append_entry_list append_entry_raises
          del: append.simps)
qed

text \<open>
  Claim C8 as stated fails on dictionaries that normalization builds from the empty one:
  after the raw SKU \<^verbatim>\<open>524-PremTee\<close> of an unknown brand, \<^verbatim>\<open>PremTee-524-XXL\<close> is stored raw,
  and no entry \<^verbatim>\<open>2XL\<close> is recorded; the same happens to a SKU of four pieces.
\<close>

theorem C8_key_bound_to_quantity:
  "normalize_rows [] [(''524-PremTee'', 1), (''PremTee-524-XXL'', 1)] =
     [(''524-PremTee'', StrV ''1''), (''PremTee-524-XXL'', StrV ''1'')]
   \<and> normalize_rows [] [(''524-PremTee'', 1), (''PremTee-524-NAVY'', 1), (''PremTee-NAVY-524-XXL'', 1)] =
     [(''524-PremTee'', StrV ''1''), (''PremTee-524-NAVY'', StrV ''1''),
      (''PremTee-NAVY-524-XXL'', StrV ''1'')]"
  by (simp add: normalize_rows_def normalize_item_def normalize_try_def append_entry_def
        py_str_small digit_char_def)

text \<open>
  The example of the claim, \<^verbatim>\<open>PremTee-524-XXL\<close> recorded with the size \<^verbatim>\<open>2XL\<close>, a SKU of
  four pieces, and a key that is bound to a quantity.
\<close>

theorem C8_premtee_524_xxl:
  "normalize_item [] (''PremTee-524-XXL'', 1) = [(''524-PremTee'', ListV [''2XL-1''])]
   \<and> normalize_item [] (''PremiereLSTee-GRN-012-XXL'', 3) =
       [(''PremiereLSTee-012-GRN'', ListV [''2XL-3''])]
   \<and> normalize_item [(''524-PremTee'', StrV ''4'')] (''PremTee-524-XXL'', 1) =
       [(''524-PremTee'', StrV ''4''), (''PremTee-524-XXL'', StrV ''1'')]"
  using C8_tee_sizes [of "''PremTee''" "''524''" "''012''" "''XXL''" "[]" 1]
    C8_tee_sizes [of "''PremiereLSTee''" "''GRN''" "''012''" "''XXL''" "[]" 3]
    C8_tee_sizes [of "''PremTee''" "''524''" "''012''" "''XXL''" "[(''524-PremTee'', StrV ''4'')]" 1]
  by (simp add: is_scalar_key_def group_entries_def py_str_small digit_char_def)

section \<open>The pick list\<close>

lemma desired_order_keys:
  "map_of desired_order k = Some n \<Longrightarrow> length k = 2 \<and> CHR ''-'' \<notin> set k"
proof -
  assume "map_of desired_order k = Some n"
  then have "(k, n) \<in> set desired_order" by (rule map_of_SomeD)
  then show ?thesis unfolding desired_order_def by auto
qed

lemma take2_entry:
  assumes "map_of desired_order (take 2 (sz @ CHR ''-'' # qs)) = Some n"
  shows "take 2 (sz @ CHR ''-'' # qs) = take 2 sz \<and> 2 \<le> length sz"
proof (cases "2 \<le> length sz")
  case True
  then show ?thesis by simp
next
  case False
  then have "CHR ''-'' \<in> set (take 2 (sz @ CHR ''-'' # qs))"
    by (cases sz) (auto simp: take_Cons')
  with desired_order_keys [OF assms] show ?thesis by simp
qed

lemma size_key_entry_unknown:
  assumes "map_of desired_order (take 2 sz) = None"
  shows "size_key (sz @ CHR ''-'' # qs) = Inl (KeyError (take 2 (sz @ CHR ''-'' # qs)))"
proof (cases "map_of desired_order (take 2 (sz @ CHR ''-'' # qs))")
  case None
  then show ?thesis by (simp add: size_key_def)
next
  case (Some n)
  from take2_entry [OF Some] Some assms show ?thesis by simp
qed

lemma py_map_fails:
  "x \<in> set xs \<Longrightarrow> f x = Inl e \<Longrightarrow> \<exists>e'. py_map f xs = Inl e'"
  by (induction xs) (auto split: sum.splits)

lemma render_groups_fails:
  "(k, v) \<in> set d \<Longrightarrow> render_group k v = Inl e \<Longrightarrow> \<exists>e'. render_groups d = Inl e'"
  by (induction d) (auto split: sum.splits)

text \<open>
  Claim C6.  When a list-valued group holds an entry whose size label does not begin
  with a key of the priority table, \<^verbatim>\<open>create_pick_list\<close> ends with an exception: no
  store is returned, so no pick-list file is written and no entry is skipped or
  sorted to a wrong place.
\<close>

theorem C6_unknown_size_fails:
  assumes "(k, ListV es) \<in> set (skus_grouped_by_style_to_size_and_quantity st)"
    and "sz @ ''-'' @ qs \<in> set es"
    and "map_of desired_order (take 2 sz) = None"
  shows "\<exists>e. create_pick_list st = Inl e"
proof -
  have key: "size_key (sz @ ''-'' @ qs) = Inl (KeyError (take 2 (sz @ ''-'' @ qs)))"
    using size_key_entry_unknown [OF assms(3)] by simp
  have "\<exists>e'. py_map size_key es = Inl e'"
    by (rule py_map_fails [of "sz @ ''-'' @ qs" es size_key, OF assms(2) key])
  then obtain e1 where "py_map size_key es = Inl e1" ..
  then have grp: "render_group k (ListV es) = Inl e1"
    by (simp add: render_group_def sort_sizes_def)
  have "\<exists>e'. render_groups (skus_grouped_by_style_to_size_and_quantity st) = Inl e'"
    by (rule render_groups_fails [of k "ListV es", OF assms(1) grp])
  then show ?thesis by (auto simp: create_pick_list_def)
qed


text \<open>A group with the unknown size \<^verbatim>\<open>XS\<close>: the lookup raises \<^verbatim>\<open>KeyError('XS')\<close>.\<close>

theorem C6_xs_fails:
  "(\<exists>e. create_pick_list
      \<lparr>store_name = ''etsy'', awaiting_shipment_orders_list = [],
       skus_grouped_by_style_to_size_and_quantity = [(''PREM-100'', ListV [''MED-1'', ''XS-1''])],
       log = [], cnx = \<lparr>orders = [], items = []\<rparr>, files = Map.empty\<rparr> = Inl e)
   \<and> render_groups [(''PREM-100'', ListV [''MED-1'', ''XS-1''])] = Inl (KeyError ''XS'')"
proof
  show "\<exists>e. create_pick_list
      \<lparr>store_name = ''etsy'', awaiting_shipment_orders_list = [],
       skus_grouped_by_style_to_size_and_quantity = [(''PREM-100'', ListV [''MED-1'', ''XS-1''])],
       log = [], cnx = \<lparr>orders = [], items = []\<rparr>, files = Map.empty\<rparr> = Inl e"
    by (rule C6_unknown_size_fails [of "''PREM-100''" "[''MED-1'', ''XS-1'']" _ "''XS''" "''1''"])
       (simp_all add: desired_order_def)
  show "render_groups [(''PREM-100'', ListV [''MED-1'', ''XS-1''])] = Inl (KeyError ''XS'')"
    by (simp add: render_group_def sort_sizes_def size_key_def desired_order_def)
qed

lemma render_entry_Inr:
  assumes "render_entry x = Inr r"
  shows "CHR ''-'' \<notin> set r \<and> CHR ''-'' \<in> set x
         \<and> (\<forall>n. map_of desired_order (take 2 x) = Some n \<longrightarrow> take 2 r = take 2 x)"
proof -
  from assms obtain sz quant where sp: "py_split CHR ''-'' x = [sz, quant]"
    by (auto simp: render_entry_def split: list.splits)
  then have x: "x = sz @ CHR ''-'' # quant"
    by (rule py_split_two)
  have nd: "CHR ''-'' \<notin> set sz" "CHR ''-'' \<notin> set quant"
    using py_split_pieces [of sz "CHR ''-''" x] py_split_pieces [of quant "CHR ''-''" x] sp
    by simp_all
  have r: "r = sz \<or> r = sz @ '' ('' @ quant @ '')''"
    using assms sp by (auto simp: render_entry_def split: sum.splits if_splits)
  have 1: "CHR ''-'' \<notin> set r"
    using r nd by auto
  have 2: "CHR ''-'' \<in> set x"
    using x by simp
  have 3: "take 2 r = take 2 x" if "map_of desired_order (take 2 x) = Some n" for n
  proof -
    have "map_of desired_order (take 2 (sz @ CHR ''-'' # quant)) = Some n"
      using that unfolding x .
    from take2_entry [OF this] have t: "take 2 x = take 2 sz" and l: "2 \<le> length sz"
      unfolding x by blast+
    from r l have "take 2 r = take 2 sz" by auto
    with t show ?thesis by simp
  qed
  from 1 2 3 show ?thesis by blast
qed

lemma render_entry_no_dash: "CHR ''-'' \<notin> set r \<Longrightarrow> render_entry r = Inl ValueError"
  by (simp add: render_entry_def py_split_no_sep)

lemma py_map_length: "py_map f xs = Inr ys \<Longrightarrow> length ys = length xs"
  by (induction xs arbitrary: ys) (auto split: sum.splits)

lemma py_map_forward:
  "py_map f xs = Inr ys \<Longrightarrow> x \<in> set xs \<Longrightarrow> \<exists>y \<in> set ys. f x = Inr y"
  by (induction xs arbitrary: ys) (auto split: sum.splits)

lemma py_map_backward:
  "py_map f xs = Inr ys \<Longrightarrow> y \<in> set ys \<Longrightarrow> \<exists>x \<in> set xs. f x = Inr y"
  by (induction xs arbitrary: ys) (auto split: sum.splits)

lemma py_map_total:
  "(\<And>x. x \<in> set xs \<Longrightarrow> \<exists>y. f x = Inr y) \<Longrightarrow> \<exists>ys. py_map f xs = Inr ys"
proof (induction xs)
  case Nil
  then show ?case by simp
next
  case (Cons a xs)
  from Cons.prems [of a] obtain y where y: "f a = Inr y" by auto
  from Cons.IH Cons.prems obtain ys where "py_map f xs = Inr ys" by auto
  with y show ?case by simp
qed

lemma py_map_all_fail:
  "xs \<noteq> [] \<Longrightarrow> (\<And>x. x \<in> set xs \<Longrightarrow> f x = Inl e) \<Longrightarrow> py_map f xs = Inl e"
  by (cases xs) auto

lemma render_group_list_again:
  assumes "render_group k (ListV es) = Inr (v', line)" and "es \<noteq> []"
  shows "\<exists>rs. v' = ListV rs \<and> length rs = length es \<and> set rs \<inter> set es = {}
           \<and> render_group k (ListV rs) = Inl ValueError"
proof -
  let ?rank = "\<lambda>x. the (map_of desired_order (take 2 x))"
  from assms(1) obtain ks rs where
    ks: "py_map size_key es = Inr ks" and
    rs: "py_map render_entry (sort_key ?rank es) = Inr rs" and
    v': "v' = ListV rs"
    by (auto simp: render_group_def sort_sizes_def split: sum.splits)
  have len: "length rs = length es"
    using py_map_length [OF rs] by simp
  have from_entry: "\<exists>x \<in> set es. render_entry x = Inr r" if "r \<in> set rs" for r
    using py_map_backward [OF rs that] by simp
  have to_entry: "\<exists>r. render_entry x = Inr r" if "x \<in> set es" for x
  proof -
    have "x \<in> set (sort_key ?rank es)" using that by simp
    from py_map_forward [OF rs this] show ?thesis by blast
  qed
  have nodash: "CHR ''-'' \<notin> set r" if "r \<in> set rs" for r
  proof -
    from from_entry [OF that] obtain x where "render_entry x = Inr r" by blast
    from render_entry_Inr [OF this] show ?thesis by simp
  qed
  have dash: "CHR ''-'' \<in> set x" if "x \<in> set es" for x
  proof -
    from to_entry [OF that] obtain r where "render_entry x = Inr r" by blast
    from render_entry_Inr [OF this] show ?thesis by simp
  qed
  have disj: "set rs \<inter> set es = {}"
  proof (rule ccontr)
    assume "set rs \<inter> set es \<noteq> {}"
    then obtain y where "y \<in> set rs" "y \<in> set es" by blast
    with nodash [of y] dash [of y] show False by simp
  qed
  have keys2: "\<exists>n. size_key r = Inr n" if "r \<in> set rs" for r
  proof -
    from from_entry [OF that] obtain x where x: "x \<in> set es" "render_entry x = Inr r"
      by blast
    from py_map_forward [OF ks x(1)] obtain n where "size_key x = Inr n" by blast
    then have n: "map_of desired_order (take 2 x) = Some n"
      by (simp add: size_key_def split: option.splits)
    from render_entry_Inr [OF x(2)] n have "take 2 r = take 2 x" by simp
    with n show ?thesis by (simp add: size_key_def)
  qed
  have "\<exists>ks'. py_map size_key rs = Inr ks'"
    by (rule py_map_total) (rule keys2)
  then obtain ks' where ks': "py_map size_key rs = Inr ks'" ..
  have "rs \<noteq> []" using len assms(2) by auto
  then have ne: "sort_key ?rank rs \<noteq> []"
    by (metis set_sort set_empty)
  have "py_map render_entry (sort_key ?rank rs) = Inl ValueError"
  proof (rule py_map_all_fail [OF ne])
    fix x assume "x \<in> set (sort_key ?rank rs)"
    then have "x \<in> set rs" by simp
    from nodash [OF this] show "render_entry x = Inl ValueError"
      by (rule render_entry_no_dash)
  qed
  then have "render_group k (ListV rs) = Inl ValueError"
    using ks' by (simp add: render_group_def sort_sizes_def)
  with v' len disj show ?thesis by simp
qed

lemma render_group_other_again:
  assumes "render_group k v = Inr (v', line)" and "\<forall>es. v = ListV es \<longrightarrow> es = []"
  shows "v' = v \<and> render_group k v' = Inr (v', line)"
proof (cases v)
  case (ListV es)
  with assms(2) have "es = []" by simp
  with ListV assms(1) show ?thesis
    by (auto simp: render_group_def sort_sizes_def)
next
  case (StrV s)
  with assms(1) show ?thesis
    by (auto simp: render_group_def split: sum.splits)
qed

lemma render_groups_Cons:
  assumes "render_groups ((k0, v0) # d) = Inr (d', pick_list)"
  shows "\<exists>v0' line rest' lines. render_group k0 v0 = Inr (v0', line)
           \<and> render_groups d = Inr (rest', lines)
           \<and> d' = (k0, v0') # rest' \<and> pick_list = line # lines"
proof (cases "render_group k0 v0")
  case (Inl e)
  with assms show ?thesis by simp
next
  case (Inr a)
  obtain v0' line where a: "a = (v0', line)" by (cases a)
  show ?thesis
  proof (cases "render_groups d")
    case (Inl e)
    with assms Inr a show ?thesis by simp
  next
    case r: (Inr b)
    obtain rest' lines where b: "b = (rest', lines)" by (cases b)
    from assms Inr a r b show ?thesis by simp
  qed
qed

lemma render_groups_again:
  assumes "render_groups d = Inr (d', pick_list)"
    and "(k, ListV es) \<in> set d" and "es \<noteq> []"
  shows "render_groups d' = Inl ValueError"
  using assms
proof (induction d arbitrary: d' pick_list)
  case Nil
  then show ?case by simp
next
  case (Cons p d)
  obtain k0 v0 where p: "p = (k0, v0)" by (cases p)
  from Cons.prems(1) p have "render_groups ((k0, v0) # d) = Inr (d', pick_list)" by simp
  from render_groups_Cons [OF this] obtain v0' line rest' lines where
    g: "render_group k0 v0 = Inr (v0', line)" and
    r: "render_groups d = Inr (rest', lines)" and
    d': "d' = (k0, v0') # rest'"
    by blast
  show ?case
  proof (cases "\<exists>es0. v0 = ListV es0 \<and> es0 \<noteq> []")
    case True
    then obtain es0 where "v0 = ListV es0" "es0 \<noteq> []" by blast
    with render_group_list_again [of k0 es0 v0' line] g
    have "render_group k0 v0' = Inl ValueError" by auto
    with d' show ?thesis by simp
  next
    case False
    then have nl: "\<forall>es. v0 = ListV es \<longrightarrow> es = []" by blast
    have same: "render_group k0 v0' = Inr (v0', line)"
      using render_group_other_again [OF g nl] by blast
    from False Cons.prems(2,3) p have "(k, ListV es) \<in> set d" by auto
    from Cons.IH [OF r this Cons.prems(3)] have "render_groups rest' = Inl ValueError" .
    with same d' show ?thesis by simp
  qed
qed


lemma render_groups_member:
  "render_groups d = Inr (d', pick_list) \<Longrightarrow> (k, v) \<in> set d \<Longrightarrow>
   \<exists>v' line. render_group k v = Inr (v', line) \<and> (k, v') \<in> set d'"
proof (induction d arbitrary: d' pick_list)
  case Nil
  then show ?case by simp
next
  case (Cons p d)
  obtain k0 v0 where p: "p = (k0, v0)" by (cases p)
  from Cons.prems(1) p have "render_groups ((k0, v0) # d) = Inr (d', pick_list)" by simp
  from render_groups_Cons [OF this] obtain v0' line rest' lines where
    g: "render_group k0 v0 = Inr (v0', line)" and
    r: "render_groups d = Inr (rest', lines)" and
    d': "d' = (k0, v0') # rest'"
    by blast
  show ?case
  proof (cases "(k, v) = (k0, v0)")
    case True
    with g d' show ?thesis by auto
  next
    case False
    with Cons.prems(2) p have "(k, v) \<in> set d" by auto
    from Cons.IH [OF r this] d' show ?thesis by auto
  qed
qed

text \<open>
  Claim C9.  A call of \<^verbatim>\<open>create_pick_list\<close> that succeeds leaves, under the key of every
  non-empty list-valued group, the sorted and rendered display strings in place of the
  stored \<^verbatim>\<open>SIZE-QTY\<close> entries (none of the original entries remains), and a second call
  on the resulting state raises \<^verbatim>\<open>ValueError\<close> at the split of a rendered entry, so the
  file is not produced again.
\<close>

theorem C9_pick_list_consumes_groups:
  assumes "create_pick_list st = Inr st'"
    and "(k, ListV es) \<in> set (skus_grouped_by_style_to_size_and_quantity st)"
    and "es \<noteq> []"
  shows "(\<exists>sorted_es rs. sort_sizes es = Inr sorted_es \<and> py_map render_entry sorted_es = Inr rs
            \<and> (k, ListV rs) \<in> set (skus_grouped_by_style_to_size_and_quantity st')
            \<and> set rs \<inter> set es = {})
         \<and> create_pick_list st' = Inl ValueError"
proof -
  from assms(1) obtain d' pick_list where
    rg: "render_groups (skus_grouped_by_style_to_size_and_quantity st) = Inr (d', pick_list)" and
    st': "skus_grouped_by_style_to_size_and_quantity st' = d'"
    by (auto simp: create_pick_list_def split: sum.splits)
  from render_groups_member [OF rg assms(2)] obtain v' line where
    g: "render_group k (ListV es) = Inr (v', line)" and mem: "(k, v') \<in> set d'"
    by blast
  from render_group_list_again [OF g assms(3)] obtain rs where
    rs: "v' = ListV rs" "set rs \<inter> set es = {}"
    by blast
  from g rs(1) obtain sorted_es where
    "sort_sizes es = Inr sorted_es" "py_map render_entry sorted_es = Inr rs"
    by (auto simp: render_group_def split: sum.splits)
  with mem rs st' have 1: "\<exists>sorted_es rs. sort_sizes es = Inr sorted_es
            \<and> py_map render_entry sorted_es = Inr rs
            \<and> (k, ListV rs) \<in> set (skus_grouped_by_style_to_size_and_quantity st')
            \<and> set rs \<inter> set es = {}"
    by blast
  from render_groups_again [OF rg assms(2,3)] st'
  have 2: "create_pick_list st' = Inl ValueError"
    by (simp add: create_pick_list_def)
  from 1 2 show ?thesis ..
qed

text \<open>One group, rendered once and then a second time.\<close>

theorem C9_example:
  "create_pick_list
      \<lparr>store_name = ''etsy'', awaiting_shipment_orders_list = [],
       skus_grouped_by_style_to_size_and_quantity = [(''PREM-100'', ListV [''LRG-2'', ''MED-1''])],
       log = [], cnx = \<lparr>orders = [], items = []\<rparr>, files = Map.empty\<rparr> =
    Inr \<lparr>store_name = ''etsy'', awaiting_shipment_orders_list = [],
       skus_grouped_by_style_to_size_and_quantity = [(''PREM-100'', ListV [''MED'', ''LRG (2)''])],
       log = [], cnx = \<lparr>orders = [], items = []\<rparr>,
       files = [''__ORDERS [etsy]__.txt'' \<mapsto> ''PREM-100 -> MED, LRG (2)\<newline>'']\<rparr>
   \<and> create_pick_list
      \<lparr>store_name = ''etsy'', awaiting_shipment_orders_list = [],
       skus_grouped_by_style_to_size_and_quantity = [(''PREM-100'', ListV [''MED'', ''LRG (2)''])],
       log = [], cnx = \<lparr>orders = [], items = []\<rparr>,
       files = [''__ORDERS [etsy]__.txt'' \<mapsto> ''PREM-100 -> MED, LRG (2)\<newline>'']\<rparr> =
    Inl ValueError"
proof -
  have 1: "create_pick_list
      \<lparr>store_name = ''etsy'', awaiting_shipment_orders_list = [],
       skus_grouped_by_style_to_size_and_quantity = [(''PREM-100'', ListV [''LRG-2'', ''MED-1''])],
       log = [], cnx = \<lparr>orders = [], items = []\<rparr>, files = Map.empty\<rparr> =
    Inr \<lparr>store_name = ''etsy'', awaiting_shipment_orders_list = [],
       skus_grouped_by_style_to_size_and_quantity = [(''PREM-100'', ListV [''MED'', ''LRG (2)''])],
       log = [], cnx = \<lparr>orders = [], items = []\<rparr>,
       files = [''__ORDERS [etsy]__.txt'' \<mapsto> ''PREM-100 -> MED, LRG (2)\<newline>'']\<rparr>"
    by (simp add: create_pick_list_def render_group_def sort_sizes_def size_key_def
          desired_order_def render_entry_def py_int_def py_int_digits_def is_digit_def
          digits_val_def digit_val_def orders_file_def)
  from C9_pick_list_consumes_groups [OF 1, of "''PREM-100''" "[''LRG-2'', ''MED-1'']"]
  show ?thesis using 1 by simp
qed

lemma place_mem: "place c ks \<noteq> None \<longleftrightarrow> c \<in> set ks"
  by (induction ks) auto

lemma map_of_zip_upt:
  "map_of (zip ks [n..<n + length ks]) c = map_option (\<lambda>i. n + i) (place c ks)"
proof (induction ks arbitrary: n)
  case Nil
  then show ?case by simp
next
  case (Cons k ks)
  have "[n..<n + length (k # ks)] = n # [Suc n..<Suc n + length ks]"
    by (subst upt_rec) simp
  then show ?case
    using Cons.IH [of "Suc n"]
    by (simp add: option.map_comp comp_def)
qed

lemma desired_order_zip: "desired_order = zip size_classes [1..<1 + length size_classes]"
  by (simp add: desired_order_def size_classes_def upt_conv_Cons)

lemma desired_order_place:
  "map_of desired_order c = map_option Suc (place c size_classes)"
proof -
  have "(+) (Suc 0) = Suc" by (rule ext) simp
  then show ?thesis
    unfolding desired_order_zip map_of_zip_upt by simp
qed

lemma size_class_length: "c \<in> set size_classes \<Longrightarrow> length c = 2"
  unfolding size_classes_def by auto

lemma known_size_rank:
  assumes "known_size sz"
  shows "map_of desired_order (take 2 sz) = Some (Suc (size_rank sz))" and "2 \<le> length sz"
proof -
  from assms have m: "take 2 sz \<in> set size_classes"
    by (simp add: known_size_def)
  then obtain i where "place (take 2 sz) size_classes = Some i"
    using place_mem [of "take 2 sz" size_classes] by auto
  then show "map_of desired_order (take 2 sz) = Some (Suc (size_rank sz))"
    by (simp add: desired_order_place size_rank_def)
  from size_class_length [OF m] show "2 \<le> length sz" by simp
qed

lemma insort_key_Suc: "insort_key (\<lambda>x. Suc (h x)) x xs = insort_key h x xs"
  by (induction xs) auto

lemma sort_key_Suc: "sort_key (\<lambda>x. Suc (h x)) xs = sort_key h xs"
  by (induction xs) (auto simp: insort_key_Suc)

lemma insort_key_map_cong:
  "(\<And>y. y \<in> set (x # xs) \<Longrightarrow> f (g y) = h y) \<Longrightarrow>
   insort_key f (g x) (map g xs) = map g (insort_key h x xs)"
  by (induction xs) auto

lemma sort_key_map_cong:
  "(\<And>y. y \<in> set xs \<Longrightarrow> f (g y) = h y) \<Longrightarrow> sort_key f (map g xs) = map g (sort_key h xs)"
proof (induction xs)
  case Nil
  then show ?case by simp
next
  case (Cons x xs)
  have "sort_key f (map g xs) = map g (sort_key h xs)"
    using Cons by simp
  moreover have "insort_key f (g x) (map g (sort_key h xs)) = map g (insort_key h x (sort_key h xs))"
    by (rule insort_key_map_cong) (use Cons.prems in auto)
  ultimately show ?case by simp
qed

lemma join_sizes_spec_join: "join_sizes xs = spec_join '', '' xs"
  by (induction xs rule: join_sizes.induct) simp_all

lemma stored_entry_take2:
  "known_size sz \<Longrightarrow> take 2 (stored_entry (sz, q)) = take 2 sz"
  using known_size_rank(2) [of sz] by (simp add: stored_entry_def)

lemma size_key_stored:
  "known_size sz \<Longrightarrow> size_key (stored_entry (sz, q)) = Inr (Suc (size_rank sz))"
  by (simp add: size_key_def stored_entry_take2 known_size_rank(1))

lemma render_entry_stored:
  assumes "CHR ''-'' \<notin> set sz"
  shows "render_entry (stored_entry (sz, q)) = Inr (spec_entry (sz, q))"
proof -
  have "py_split CHR ''-'' (sz @ CHR ''-'' # py_str q) = [sz, py_str q]"
    using assms by (simp add: py_split_append py_split_no_sep py_str_no_dash)
  then show ?thesis
    by (simp add: render_entry_def stored_entry_def spec_entry_def py_int_py_str)
qed

lemma py_map_map_Inr:
  "(\<And>x. x \<in> set xs \<Longrightarrow> f (g x) = Inr (h x)) \<Longrightarrow> py_map f (map g xs) = Inr (map h xs)"
  by (induction xs) auto

lemma render_group_sized:
  assumes "sizes_known (Sized es)"
  shows "render_group k (stored_value (Sized es)) =
           Inr (ListV (map spec_entry (sort_key (\<lambda>e. size_rank (fst e)) es)),
                amended_line k (Sized es) @ ''\<newline>'')"
proof -
  let ?rank = "\<lambda>x. the (map_of desired_order (take 2 x))"
  have wf: "CHR ''-'' \<notin> set (fst e) \<and> known_size (fst e)" if "e \<in> set es" for e
    using assms that by (auto simp: sizes_known_def list_all_iff)
  have ks: "py_map size_key (map stored_entry es) = Inr (map (\<lambda>e. Suc (size_rank (fst e))) es)"
  proof (rule py_map_map_Inr)
    fix x assume "x \<in> set es"
    with wf [of x] size_key_stored [of "fst x" "snd x"]
    show "size_key (stored_entry x) = Inr (Suc (size_rank (fst x)))" by simp
  qed
  have "sort_key ?rank (map stored_entry es) =
          map stored_entry (sort_key (\<lambda>e. Suc (size_rank (fst e))) es)"
  proof (rule sort_key_map_cong)
    fix y assume "y \<in> set es"
    with wf [of y] stored_entry_take2 [of "fst y" "snd y"] known_size_rank(1) [of "fst y"]
    show "the (map_of desired_order (take 2 (stored_entry y))) = Suc (size_rank (fst y))"
      by simp
  qed
  then have srt: "sort_key ?rank (map stored_entry es) =
               map stored_entry (sort_key (\<lambda>e. size_rank (fst e)) es)"
    by (simp add: sort_key_Suc)
  have rnd: "py_map render_entry (map stored_entry (sort_key (\<lambda>e. size_rank (fst e)) es)) =
               Inr (map spec_entry (sort_key (\<lambda>e. size_rank (fst e)) es))"
  proof (rule py_map_map_Inr)
    fix x assume "x \<in> set (sort_key (\<lambda>e. size_rank (fst e)) es)"
    then have "x \<in> set es" by simp
    with wf [of x] render_entry_stored [of "fst x" "snd x"]
    show "render_entry (stored_entry x) = Inr (spec_entry x)" by simp
  qed
  show ?thesis
    by (simp add: render_group_def stored_value_def sort_sizes_def ks srt rnd amended_line_def
          join_sizes_spec_join)
qed

lemma render_group_unsized:
  "render_group k (stored_value (Unsized q)) =
     Inr (StrV (py_str q), amended_line k (Unsized q) @ ''\<newline>'')"
  by (simp add: render_group_def stored_value_def py_int_py_str amended_line_def)

lemma render_group_amended:
  assumes "sizes_known g"
  shows "\<exists>v'. render_group k (stored_value g) = Inr (v', amended_line k g @ ''\<newline>'')"
proof (cases g)
  case (Sized es)
  with assms render_group_sized [of es k] show ?thesis by simp
next
  case (Unsized q)
  with render_group_unsized [of k q] show ?thesis by simp
qed

lemma render_groups_amended:
  assumes "list_all (\<lambda>p. sizes_known (snd p)) groups"
  shows "\<exists>d'. render_groups (map (\<lambda>p. (fst p, stored_value (snd p))) groups) =
           Inr (d', map (\<lambda>p. amended_line (fst p) (snd p) @ ''\<newline>'') groups)"
  using assms
proof (induction groups)
  case Nil
  then show ?case by simp
next
  case (Cons p groups)
  from Cons.prems have "sizes_known (snd p)" by simp
  from render_group_amended [OF this, of "fst p"] obtain v' where
    v': "render_group (fst p) (stored_value (snd p)) =
           Inr (v', amended_line (fst p) (snd p) @ ''\<newline>'')" ..
  from Cons obtain d' where
    "render_groups (map (\<lambda>p. (fst p, stored_value (snd p))) groups) =
       Inr (d', map (\<lambda>p. amended_line (fst p) (snd p) @ ''\<newline>'') groups)"
    by auto
  with v' show ?case by simp
qed

text \<open>
  Claim C5, as the code has it.  For every dictionary whose size labels are in the
  comparator's chain, \<^verbatim>\<open>create_pick_list\<close> succeeds and replaces the content of the
  store's pick-list file.  A list-valued group is written as the claim says: the key,
  \<^verbatim>\<open>' -> '\<close>, and the entries sorted by the size comparator, each \<^verbatim>\<open>SIZE\<close> for the quantity
  1 and \<^verbatim>\<open>SIZE (quantity)\<close> otherwise, joined with \<^verbatim>\<open>', '\<close>.  A quantity alone is written
  as \<^verbatim>\<open>key ... (quantity)\<close> when it is greater than 1 and as the bare key otherwise.
  The lines are sorted by the order of the character codes with their newline as
  their last character, and written in that order.
\<close>

theorem C5_pick_list_lines:
  assumes "list_all (\<lambda>p. sizes_known (snd p)) groups"
    and "skus_grouped_by_style_to_size_and_quantity st =
           map (\<lambda>p. (fst p, stored_value (snd p))) groups"
  shows "\<exists>st'. create_pick_list st = Inr st' \<and>
           files st' = (files st)(orders_file (store_name st) \<mapsto> amended_pick_list groups)"
proof -
  from render_groups_amended [OF assms(1)] obtain d' where
    "render_groups (skus_grouped_by_style_to_size_and_quantity st) =
       Inr (d', map (\<lambda>p. amended_line (fst p) (snd p) @ ''\<newline>'') groups)"
    unfolding assms(2) ..
  then show ?thesis by (simp add: create_pick_list_def amended_pick_list_def)
qed

text \<open>
  Claim C5 as stated fails at two inputs.  A quantity 0 without sizes is written as the
  bare key, where the claim has \<^verbatim>\<open>key ... (0)\<close>.  And the key \<^verbatim>\<open>A\<close> followed by a TAB
  and \<^verbatim>\<open>B\<close> is written before the key \<^verbatim>\<open>A\<close>, because the newline that ends the line
  \<^verbatim>\<open>A\<close> is above the TAB, where sorting the lines themselves puts \<^verbatim>\<open>A\<close> first.
\<close>

theorem C5_zero_quantity_and_tab_key:
  "create_pick_list (pick_store [(''W'', StrV ''0'')] Map.empty) =
     Inr (pick_store [(''W'', StrV ''0'')] [''__ORDERS [etsy]__.txt'' \<mapsto> ''W\<newline>''])
   \<and> spec_pick_list [(''W'', Unsized 0)] = ''W ... (0)\<newline>''
   \<and> create_pick_list (pick_store [(''A'', StrV ''1''), (''A'' @ [CHR 0x09] @ ''B'', StrV ''1'')] Map.empty) =
     Inr (pick_store [(''A'', StrV ''1''), (''A'' @ [CHR 0x09] @ ''B'', StrV ''1'')]
            [''__ORDERS [etsy]__.txt'' \<mapsto> ''A'' @ [CHR 0x09] @ ''B\<newline>A\<newline>''])
   \<and> spec_pick_list [(''A'', Unsized 1), (''A'' @ [CHR 0x09] @ ''B'', Unsized 1)] =
       ''A\<newline>A'' @ [CHR 0x09] @ ''B\<newline>''"
  by (simp add: create_pick_list_def pick_store_def render_group_def py_int_def py_int_digits_def
        is_digit_def digits_val_def digit_val_def orders_file_def spec_pick_list_def
        spec_line_def py_str_small digit_char_def)

text \<open>
  The example of the claim, between two groups without sizes, over a file that had
  other content.
\<close>

theorem C5_example:
  "\<exists>st'. create_pick_list
      (pick_store [(''WIDGET-1'', StrV ''3''), (''PREM-100'', ListV [''MED-1'', ''LRG-2'']),
                   (''WIDGET-2'', StrV ''1'')]
                  [''__ORDERS [etsy]__.txt'' \<mapsto> ''old'']) = Inr st' \<and>
     files st' = [''__ORDERS [etsy]__.txt'' \<mapsto>
        ''PREM-100 -> MED, LRG (2)\<newline>WIDGET-1 ... (3)\<newline>WIDGET-2\<newline>'']"
  using C5_pick_list_lines
    [of "[(''WIDGET-1'', Unsized 3), (''PREM-100'', Sized [(''MED'', 1), (''LRG'', 2)]),
          (''WIDGET-2'', Unsized 1)]"
        "pick_store [(''WIDGET-1'', StrV ''3''), (''PREM-100'', ListV [''MED-1'', ''LRG-2'']),
                   (''WIDGET-2'', StrV ''1'')]
                  [''__ORDERS [etsy]__.txt'' \<mapsto> ''old'']"]
  by (simp add: pick_store_def sizes_known_def known_size_def size_classes_def stored_value_def
        stored_entry_def py_str_small digit_char_def amended_pick_list_def amended_line_def
        spec_entry_def size_rank_def orders_file_def)

text \<open>
  The amendment changes nothing else: when every quantity without sizes is at least 1
  and every character of the lines is above the newline, the file is the one the claim
  describes.
\<close>

lemma le_with_newline:
  assumes "\<forall>c \<in> set a. n < c" "\<forall>c \<in> set b. n < c"
  shows "a @ [n] \<le> b @ [n] \<longleftrightarrow> a \<le> (b :: 'a :: linorder list)"
  using assms
proof (induction a arbitrary: b)
  case Nil
  then show ?case by (cases b) auto
next
  case (Cons x a)
  then show ?case by (cases b) auto
qed

lemma insort_map_embed:
  assumes "\<And>u v. u \<in> set (x # xs) \<Longrightarrow> v \<in> set (x # xs) \<Longrightarrow> (f u \<le> f v) = (u \<le> v)"
  shows "insort_key (\<lambda>z. z) (f x) (map f xs) = map f (insort_key (\<lambda>z. z) x xs)"
  using assms by (induction xs) auto

lemma sort_map_embed:
  assumes "\<And>u v. u \<in> set xs \<Longrightarrow> v \<in> set xs \<Longrightarrow> (f u \<le> f v) = (u \<le> v)"
  shows "sort_key (\<lambda>z. z) (map f xs) = map f (sort_key (\<lambda>z. z) xs)"
  using assms
proof (induction xs)
  case Nil
  then show ?case by simp
next
  case (Cons x xs)
  have "sort_key (\<lambda>z. z) (map f xs) = map f (sort_key (\<lambda>z. z) xs)"
    using Cons by simp
  moreover have "insort_key (\<lambda>z. z) (f x) (map f (sort_key (\<lambda>z. z) xs)) =
                 map f (insort_key (\<lambda>z. z) x (sort_key (\<lambda>z. z) xs))"
    by (rule insort_map_embed) (use Cons.prems in auto)
  ultimately show ?case by simp
qed

lemma amended_line_spec_line:
  "(\<And>q. g = Unsized q \<Longrightarrow> 1 \<le> q) \<Longrightarrow> amended_line k g = spec_line k g"
  by (cases g) (auto simp: amended_line_def spec_line_def)

lemma amended_pick_list_spec_pick_list:
  assumes q: "\<And>k q. (k, Unsized q) \<in> set groups \<Longrightarrow> 1 \<le> q"
    and c: "\<And>p c. p \<in> set groups \<Longrightarrow> c \<in> set (spec_line (fst p) (snd p)) \<Longrightarrow> CHR 0x0A < c"
  shows "amended_pick_list groups = spec_pick_list groups"
proof -
  let ?ls = "map (\<lambda>p. spec_line (fst p) (snd p)) groups"
  have lines: "map (\<lambda>p. amended_line (fst p) (snd p) @ ''\<newline>'') groups = map (\<lambda>l. l @ ''\<newline>'') ?ls"
  proof -
    have "amended_line (fst p) (snd p) = spec_line (fst p) (snd p)" if "p \<in> set groups" for p
    proof (rule amended_line_spec_line)
      fix q' assume "snd p = Unsized q'"
      then have "p = (fst p, Unsized q')" by (metis prod.collapse)
      with that have "(fst p, Unsized q') \<in> set groups" by simp
      then show "1 \<le> q'" by (rule q)
    qed
    then have "map (\<lambda>p. amended_line (fst p) (snd p) @ ''\<newline>'') groups =
               map (\<lambda>p. spec_line (fst p) (snd p) @ ''\<newline>'') groups"
      by (intro map_cong) simp_all
    then show ?thesis by (simp add: comp_def)
  qed
  have srt: "sort (map (\<lambda>l. l @ ''\<newline>'') ?ls) = map (\<lambda>l. l @ ''\<newline>'') (sort ?ls)"
  proof (rule sort_map_embed)
    fix u v assume "u \<in> set ?ls" "v \<in> set ?ls"
    then have "\<forall>c \<in> set u. CHR 0x0A < c" "\<forall>c \<in> set v. CHR 0x0A < c"
      using c by auto
    from le_with_newline [OF this] show "(u @ ''\<newline>'' \<le> v @ ''\<newline>'') = (u \<le> v)" by simp
  qed
  show ?thesis
    unfolding amended_pick_list_def spec_pick_list_def lines srt ..
qed

section \<open>The ledger\<close>

lemma item_commits_eq:
  "item_commits db rs = map (\<lambda>k. db\<lparr>items := items db @ take k rs\<rparr>) [1..<Suc (length rs)]"
proof (induction rs arbitrary: db)
  case Nil
  then show ?case by simp
next
  case (Cons r rs)
  have "[1..<Suc (length (r # rs))] = 1 # map Suc [1..<Suc (length rs)]"
    by (simp add: upt_conv_Cons map_Suc_upt del: upt_Suc)
  then show ?case
    using Cons.IH [of "insert_item db r"]
    by (simp add: insert_item_def del: upt_Suc)
qed

lemma foldl_insert_item:
  "foldl (\<lambda>db (s, q). insert_item db \<lparr>ord_num = n, sku = s, quantity = q\<rparr>) db rows =
     db\<lparr>items := items db @ map (\<lambda>(s, q). \<lparr>ord_num = n, sku = s, quantity = q\<rparr>) rows\<rparr>"
  by (induction rows arbitrary: db) (auto simp: insert_item_def)

lemma example_date_parsed:
  "parse_order_date ''2024-01-15T10:30:00.0000000'' = Inr example_date"
  by (simp add: parse_order_date_def py_int_def py_int_digits_def is_digit_def digits_val_def
        digit_val_def datetime_new_def fits_c_int_def days_in_month_def example_date_def)

text \<open>What one iteration of the loop does to the ledger and to the log.\<close>

lemma select_order_Some:
  "r \<in> set (orders db) \<Longrightarrow> order_number r = n \<Longrightarrow> \<exists>row. select_order db n = Some row"
  by (cases "select_order db n") (auto simp: select_order_def find_None_iff)

lemma select_order_None:
  "select_order db n = None \<longleftrightarrow> (\<forall>r \<in> set (orders db). order_number r \<noteq> n)"
  by (auto simp: select_order_def find_None_iff)

lemma parse_known_order:
  assumes "select_order (cnx st) (orderNumber order) = Some row"
    and "parse_order sku_dict st order = Inr st'"
  shows "orders (cnx st') =
           map (\<lambda>r. if order_number r = orderNumber order then r\<lparr>is_new := False\<rparr> else r)
               (orders (cnx st))
         \<and> items (cnx st') = items (cnx st)
         \<and> cnx st' = update_not_new (cnx st) (orderNumber order)
         \<and> (\<exists>entry. log st' = log st @ [entry] \<and> log_order_number entry = orderNumber order
                \<and> \<not> log_is_new entry)"
  using assms
  by (auto simp: parse_order_def Let_def update_not_new_def split: sum.splits)

lemma parse_new_order:
  assumes "select_order (cnx st) (orderNumber order) = None"
    and "parse_order sku_dict st order = Inr st'"
  shows "(\<exists>dt. orders (cnx st') = orders (cnx st) @ [order_row_of order dt])
         \<and> items (cnx st') = items (cnx st) @ item_rows_of sku_dict order
         \<and> (\<exists>entry. log st' = log st @ [entry] \<and> log_order_number entry = orderNumber order
                \<and> log_is_new entry)"
  using assms
  by (auto simp: parse_order_def Let_def foldl_insert_item insert_order_def order_row_of_def
        item_rows_of_def comp_def split: sum.splits)



lemma is_new_never_set_back:
  assumes "parse_order sku_dict st order = Inr st'" and "i < length (orders (cnx st))"
  shows "order_number (orders (cnx st') ! i) = order_number (orders (cnx st) ! i)
         \<and> (is_new (orders (cnx st') ! i) \<longrightarrow> is_new (orders (cnx st) ! i))"
proof (cases "select_order (cnx st) (orderNumber order)")
  case None
  from parse_new_order [OF None assms(1)] obtain dt where
    "orders (cnx st') = orders (cnx st) @ [order_row_of order dt]"
    by blast
  with assms(2) show ?thesis by (simp add: nth_append)
next
  case (Some row)
  from parse_known_order [OF Some assms(1)] have
    "orders (cnx st') =
       map (\<lambda>r. if order_number r = orderNumber order then r\<lparr>is_new := False\<rparr> else r)
           (orders (cnx st))"
    by blast
  with assms(2) show ?thesis by simp
qed

text \<open>
  The join behind the pick list and the report of quantities holds only pairs with a
  new order: once an order is flagged, none of its items is in the join, so none is
  counted in \<open>sku_totals\<close> and none is reported with a quantity greater than one.
\<close>

lemma join_member:
  "(a, b) \<in> set (concat (map (\<lambda>x. map (\<lambda>y. (x, y)) (filter (P x) ys)) xs)) \<longleftrightarrow>
     a \<in> set xs \<and> b \<in> set ys \<and> P a b"
  by (induction xs) auto

lemma new_order_items_member:
  "(i, ord) \<in> set (new_order_items db) \<longleftrightarrow>
     i \<in> set (items db) \<and> ord \<in> set (orders db) \<and> ord_num i = order_number ord \<and> is_new ord"
  unfolding new_order_items_def
  by (rule join_member [of i ord "\<lambda>i ord. ord_num i = order_number ord \<and> is_new ord"])

lemma map_flag:
  "r \<in> set (map (\<lambda>r. if P r then f r else r) xs) \<Longrightarrow>
   (\<exists>x \<in> set xs. P x \<and> r = f x) \<or> (r \<in> set xs \<and> \<not> P r)"
  by (induction xs) (auto split: if_splits)

lemma update_not_new_rows:
  assumes "r \<in> set (orders (update_not_new db n))" "order_number r = n"
  shows "\<not> is_new r"
proof -
  have "orders (update_not_new db n) =
          map (\<lambda>r. if order_number r = n then r\<lparr>is_new := False\<rparr> else r) (orders db)"
    by (simp add: update_not_new_def)
  with assms(1)
    map_flag [of r "\<lambda>r. order_number r = n" "\<lambda>r. r\<lparr>is_new := False\<rparr>" "orders db"]
  have "(\<exists>x \<in> set (orders db). order_number x = n \<and> r = x\<lparr>is_new := False\<rparr>)
        \<or> (r \<in> set (orders db) \<and> order_number r \<noteq> n)"
    by simp
  then show ?thesis
  proof
    assume "\<exists>x \<in> set (orders db). order_number x = n \<and> r = x\<lparr>is_new := False\<rparr>"
    then obtain x where "r = x\<lparr>is_new := False\<rparr>" by (elim bexE conjE)
    then show ?thesis by simp
  next
    assume "r \<in> set (orders db) \<and> order_number r \<noteq> n"
    with assms(2) show ?thesis by simp
  qed
qed

lemma flagged_order_not_in_join:
  assumes "(i, ord) \<in> set (new_order_items (update_not_new db n))"
  shows "ord_num i \<noteq> n"
proof
  assume n: "ord_num i = n"
  from assms have m: "ord \<in> set (orders (update_not_new db n))"
    and e: "ord_num i = order_number ord" and new: "is_new ord"
    unfolding new_order_items_member by blast+
  from e n have "order_number ord = n" by simp
  from update_not_new_rows [OF m this] new show False by simp
qed

lemma sku_totals_rows:
  "sku_totals db =
     map (\<lambda>s. (s, sum_list (map quantity (filter (\<lambda>i. sku i = s) (map fst (new_order_items db))))))
         (remdups (map (\<lambda>p. sku (fst p)) (new_order_items db)))"
  by (simp add: sku_totals_def Let_def comp_def)

lemma flagged_order_not_in_quantity_report:
  assumes "row \<in> set (order_with_multiple_quantity (update_not_new db n))"
  shows "fst row \<noteq> n"
proof -
  from assms obtain p where
    p: "p \<in> set (new_order_items (update_not_new db n))"
    and row: "row = (order_number (snd p), customer_name (snd p), sku (fst p), quantity (fst p))"
    unfolding order_with_multiple_quantity_def set_map set_filter
    by (auto simp: case_prod_beta)
  from p have "(fst p, snd p) \<in> set (new_order_items (update_not_new db n))" by simp
  then have "ord_num (fst p) \<noteq> n" "ord_num (fst p) = order_number (snd p)"
    using flagged_order_not_in_join [of "fst p" "snd p" db n]
    unfolding new_order_items_member by blast+
  with row show ?thesis by simp
qed


text \<open>
  An order number not in the ledger, fetched twice in a row: one order row and one set
  of item rows are inserted, the row ends flagged, and the log gains an entry marked
  new followed by an entry marked not new.
\<close>

lemma duplicate_in_run:
  assumes new: "select_order (cnx st) (orderNumber o1) = None"
    and p1: "parse_order sku_dict st o1 = Inr st1"
    and same: "orderNumber o2 = orderNumber o1"
    and p2: "parse_order sku_dict st1 o2 = Inr st2"
  shows "(\<exists>e1 e2. log st2 = log st @ [e1, e2] \<and> log_is_new e1 \<and> \<not> log_is_new e2
            \<and> log_order_number e1 = orderNumber o1 \<and> log_order_number e2 = orderNumber o1)
         \<and> cnx st2 = update_not_new (cnx st1) (orderNumber o1)
         \<and> length (orders (cnx st2)) = Suc (length (orders (cnx st)))
         \<and> items (cnx st2) = items (cnx st) @ item_rows_of sku_dict o1"
proof -
  from parse_new_order [OF new p1] obtain dt e1 where
    o1: "orders (cnx st1) = orders (cnx st) @ [order_row_of o1 dt]" and
    i1: "items (cnx st1) = items (cnx st) @ item_rows_of sku_dict o1" and
    l1: "log st1 = log st @ [e1]" "log_order_number e1 = orderNumber o1" "log_is_new e1"
    by blast
  have "order_row_of o1 dt \<in> set (orders (cnx st1))" using o1 by simp
  moreover have "order_number (order_row_of o1 dt) = orderNumber o2"
    using same by (simp add: order_row_of_def)
  ultimately obtain row where "select_order (cnx st1) (orderNumber o2) = Some row"
    using select_order_Some by blast
  from parse_known_order [OF this p2] obtain e2 where
    o2: "orders (cnx st2) =
           map (\<lambda>r. if order_number r = orderNumber o2 then r\<lparr>is_new := False\<rparr> else r)
               (orders (cnx st1))" and
    i2: "items (cnx st2) = items (cnx st1)" and
    c2: "cnx st2 = update_not_new (cnx st1) (orderNumber o2)" and
    l2: "log st2 = log st1 @ [e2]" "log_order_number e2 = orderNumber o2" "\<not> log_is_new e2"
    by blast
  have a: "\<exists>e1 e2. log st2 = log st @ [e1, e2] \<and> log_is_new e1 \<and> \<not> log_is_new e2
            \<and> log_order_number e1 = orderNumber o1 \<and> log_order_number e2 = orderNumber o1"
    using l1 l2 same by (intro exI [of _ e1] exI [of _ e2]) simp
  have b: "cnx st2 = update_not_new (cnx st1) (orderNumber o1)"
    using c2 same by simp
  have c: "length (orders (cnx st2)) = Suc (length (orders (cnx st)))"
    using o1 o2 by simp
  have d: "items (cnx st2) = items (cnx st) @ item_rows_of sku_dict o1"
    using i1 i2 by simp
  from a b c d show ?thesis by blast
qed

text \<open>
  Claim C4, as the code has it.  Recording a new order is not one unit: the order row
  is committed first and each item row is committed by itself, in order.  The states
  made durable while a new order with \<open>n\<close> items is processed are \<open>n + 1\<close> states, the
  \<open>k\<close>-th holding the order row and the first \<open>k\<close> item rows; only the last one, which is
  the ledger the call leaves, holds the order with all of its items.
\<close>

theorem C4_commit_trace:
  assumes "parse_order_date (orderDate order) = Inr dt"
    and "select_order (cnx st) (orderNumber order) = None"
  shows "parse_order_commits sku_dict (cnx st) order =
           Inr (map (\<lambda>k. \<lparr>orders = orders (cnx st) @ [order_row_of order dt],
                            items = items (cnx st) @ take k (item_rows_of sku_dict order)\<rparr>)
                    [0..<Suc (length (order_items order))])
       \<and> (\<exists>st'. parse_order sku_dict st order = Inr st' \<and>
             cnx st' = \<lparr>orders = orders (cnx st) @ [order_row_of order dt],
                         items = items (cnx st) @ item_rows_of sku_dict order\<rparr>)"
proof -
  let ?db1 = "insert_order (cnx st) (order_row_of order dt)"
  have len: "length (item_rows_of sku_dict order) = length (order_items order)"
    by (simp add: item_rows_of_def)
  have up: "[0..<Suc (length (order_items order))] = 0 # [1..<Suc (length (order_items order))]"
    by (simp add: upt_conv_Cons del: upt_Suc)
  have "parse_order_commits sku_dict (cnx st) order =
          Inr (?db1 # item_commits ?db1 (item_rows_of sku_dict order))"
    using assms by (simp add: parse_order_commits_def Let_def order_row_of_def item_rows_of_def)
  also have "?db1 # item_commits ?db1 (item_rows_of sku_dict order) =
       map (\<lambda>k. \<lparr>orders = orders (cnx st) @ [order_row_of order dt],
                  items = items (cnx st) @ take k (item_rows_of sku_dict order)\<rparr>)
           [0..<Suc (length (order_items order))]"
    unfolding up item_commits_eq len
    by (simp add: insert_order_def del: upt_Suc)
  finally have 1: "parse_order_commits sku_dict (cnx st) order =
           Inr (map (\<lambda>k. \<lparr>orders = orders (cnx st) @ [order_row_of order dt],
                            items = items (cnx st) @ take k (item_rows_of sku_dict order)\<rparr>)
                    [0..<Suc (length (order_items order))])" .
  have 2: "\<exists>st'. parse_order sku_dict st order = Inr st' \<and>
             cnx st' = \<lparr>orders = orders (cnx st) @ [order_row_of order dt],
                         items = items (cnx st) @ item_rows_of sku_dict order\<rparr>"
    using assms
    by (simp add: parse_order_def Let_def foldl_insert_item insert_order_def order_row_of_def
          item_rows_of_def comp_def)
  from 1 2 show ?thesis ..
qed


text \<open>
  Claim C4 as stated fails: for a new order with two items, the first two committed
  states hold the order row without all of its item rows (the state a failure of the
  first or of the second item insert leaves behind).
\<close>

theorem C4_order_row_without_items:
  "parse_order_commits Map.empty \<lparr>orders = [], items = []\<rparr>
     (example_order ''1001'' ''Ann Lee''
        [\<lparr>item_sku = ''PREM-100-MED'', item_name = ''Shirt'', item_quantity = 1\<rparr>,
         \<lparr>item_sku = ''PREM-200-XL'', item_name = ''Shirt'', item_quantity = 2\<rparr>]) =
   Inr [\<lparr>orders = [example_row ''1001'' ''Ann Lee'' True], items = []\<rparr>,
        \<lparr>orders = [example_row ''1001'' ''Ann Lee'' True],
         items = [\<lparr>ord_num = ''1001'', sku = ''PREM-100-MED'', quantity = 1\<rparr>]\<rparr>,
        \<lparr>orders = [example_row ''1001'' ''Ann Lee'' True],
         items = [\<lparr>ord_num = ''1001'', sku = ''PREM-100-MED'', quantity = 1\<rparr>,
                  \<lparr>ord_num = ''1001'', sku = ''PREM-200-XL'', quantity = 2\<rparr>]\<rparr>]"
  by (simp add: parse_order_commits_def example_order_def example_date_parsed select_order_def
        insert_order_def insert_item_def example_row_def item_sku_of_def)

text \<open>The same order processed to its end.\<close>

theorem C4_two_items_recorded:
  "\<exists>st'. parse_order Map.empty (example_store [] \<lparr>orders = [], items = []\<rparr>)
            (example_order ''1001'' ''Ann Lee''
               [\<lparr>item_sku = ''PREM-100-MED'', item_name = ''Shirt'', item_quantity = 1\<rparr>,
                \<lparr>item_sku = ''PREM-200-XL'', item_name = ''Shirt'', item_quantity = 2\<rparr>]) = Inr st'
       \<and> cnx st' =
           \<lparr>orders = [example_row ''1001'' ''Ann Lee'' True],
            items = [\<lparr>ord_num = ''1001'', sku = ''PREM-100-MED'', quantity = 1\<rparr>,
                     \<lparr>ord_num = ''1001'', sku = ''PREM-200-XL'', quantity = 2\<rparr>]\<rparr>"
proof -
  have d: "parse_order_date (orderDate (example_order ''1001'' ''Ann Lee''
               [\<lparr>item_sku = ''PREM-100-MED'', item_name = ''Shirt'', item_quantity = 1\<rparr>,
                \<lparr>item_sku = ''PREM-200-XL'', item_name = ''Shirt'', item_quantity = 2\<rparr>])) =
           Inr example_date"
    by (simp add: example_order_def example_date_parsed)
  have n: "select_order (cnx (example_store [] \<lparr>orders = [], items = []\<rparr>))
             (orderNumber (example_order ''1001'' ''Ann Lee''
               [\<lparr>item_sku = ''PREM-100-MED'', item_name = ''Shirt'', item_quantity = 1\<rparr>,
                \<lparr>item_sku = ''PREM-200-XL'', item_name = ''Shirt'', item_quantity = 2\<rparr>])) = None"
    by (simp add: select_order_def example_store_def)
  from C4_commit_trace [OF d n, of Map.empty] show ?thesis
    by (simp add: example_store_def example_order_def order_row_of_def item_rows_of_def
          item_sku_of_def example_row_def)
qed

section \<open>The report of customers with more than one order\<close>

text \<open>
  Who is reported and what is listed: a customer is in the report exactly when more
  than one of the customer's orders is new, and the numbers listed are those of all
  the customer's orders in the table, in table order.  Without such a customer the
  marker line is written.
\<close>

lemma multiple_order_customers:
  "c \<in> fst ` set (customer_with_multiple_order db) \<longleftrightarrow>
     1 < length (filter (\<lambda>ord. is_new ord \<and> customer_name ord = c) (orders db))"
proof -
  let ?new = "filter is_new (orders db)"
  have cnt: "length (filter (\<lambda>ord. customer_name ord = c) ?new) =
             length (filter (\<lambda>ord. is_new ord \<and> customer_name ord = c) (orders db))"
    by (simp add: conj_commute)
  have "c \<in> fst ` set (customer_with_multiple_order db) \<longleftrightarrow>
          c \<in> set (map customer_name ?new) \<and> 1 < length (filter (\<lambda>ord. customer_name ord = c) ?new)"
    by (auto simp: customer_with_multiple_order_def Let_def image_iff)
  also have "\<dots> \<longleftrightarrow> 1 < length (filter (\<lambda>ord. customer_name ord = c) ?new)"
  proof -
    have "c \<in> set (map customer_name ?new)" if "1 < length (filter (\<lambda>ord. customer_name ord = c) ?new)"
    proof -
      from that have "filter (\<lambda>ord. customer_name ord = c) ?new \<noteq> []" by auto
      then have "\<exists>x \<in> set ?new. customer_name x = c"
        unfolding filter_empty_conv by blast
      then show ?thesis by (auto simp: image_iff)
    qed
    then show ?thesis by blast
  qed
  finally show ?thesis using cnt by simp
qed

lemma map_of_add_order_info:
  "map_of (add_order_info d r) c =
     (if fst r = c then Some ((case map_of d c of None \<Rightarrow> [] | Some l \<Rightarrow> l) @ [snd r])
      else map_of d c)"
  by (auto simp: add_order_info_def update_conv' split: option.splits)

lemma foldl_add_order_info:
  "map_of (foldl add_order_info d rows) c =
     (case map_of d c of
        None \<Rightarrow> (if filter (\<lambda>r. fst r = c) rows = [] then None
                  else Some (map snd (filter (\<lambda>r. fst r = c) rows)))
      | Some l \<Rightarrow> Some (l @ map snd (filter (\<lambda>r. fst r = c) rows)))"
proof (induction rows arbitrary: d)
  case Nil
  then show ?case by (simp split: option.splits)
next
  case (Cons r rows)
  have "map_of (foldl add_order_info d (r # rows)) c =
          map_of (foldl add_order_info (add_order_info d r) rows) c"
    by simp
  also have "\<dots> =
     (case map_of (add_order_info d r) c of
        None \<Rightarrow> (if filter (\<lambda>r. fst r = c) rows = [] then None
                  else Some (map snd (filter (\<lambda>r. fst r = c) rows)))
      | Some l \<Rightarrow> Some (l @ map snd (filter (\<lambda>r. fst r = c) rows)))"
    by (rule Cons.IH)
  also have "\<dots> =
     (case map_of d c of
        None \<Rightarrow> (if filter (\<lambda>r. fst r = c) (r # rows) = [] then None
                  else Some (map snd (filter (\<lambda>r. fst r = c) (r # rows))))
      | Some l \<Rightarrow> Some (l @ map snd (filter (\<lambda>r. fst r = c) (r # rows))))"
    unfolding map_of_add_order_info by (simp split: option.splits)
  finally show ?case .
qed

lemma order_info_dict_lookup:
  "map_of (order_info_dict db) c =
     (if 1 < length (filter (\<lambda>ord. is_new ord \<and> customer_name ord = c) (orders db))
      then Some (map order_number (filter (\<lambda>ord. customer_name ord = c) (orders db)))
      else None)"
proof -
  let ?T = "fst ` set (customer_with_multiple_order db)"
  have rows: "filter (\<lambda>r. fst r = c) (select_customer_orders db) =
          (if c \<in> ?T then map (\<lambda>ord. (customer_name ord, order_number ord))
                             (filter (\<lambda>ord. customer_name ord = c) (orders db))
           else [])"
  proof (cases "c \<in> ?T")
    case True
    then have "filter (\<lambda>x. customer_name x \<in> ?T \<and> customer_name x = c) (orders db) =
               filter (\<lambda>x. customer_name x = c) (orders db)"
      by (intro filter_cong) auto
    with True show ?thesis
      by (simp add: select_customer_orders_def filter_map comp_def)
  next
    case False
    then have "filter (\<lambda>x. customer_name x \<in> ?T \<and> customer_name x = c) (orders db) = []"
      by (auto simp: filter_empty_conv)
    with False show ?thesis
      by (simp add: select_customer_orders_def filter_map comp_def)
  qed
  show ?thesis
  proof (cases "c \<in> ?T")
    case True
    then have many: "1 < length (filter (\<lambda>ord. is_new ord \<and> customer_name ord = c) (orders db))"
      by (simp add: multiple_order_customers)
    then have "filter (\<lambda>ord. is_new ord \<and> customer_name ord = c) (orders db) \<noteq> []" by auto
    then have "filter (\<lambda>ord. customer_name ord = c) (orders db) \<noteq> []"
      by (auto simp: filter_empty_conv)
    with True many show ?thesis
      by (simp add: order_info_dict_def foldl_add_order_info rows comp_def)
  next
    case False
    then have "\<not> 1 < length (filter (\<lambda>ord. is_new ord \<and> customer_name ord = c) (orders db))"
      by (simp add: multiple_order_customers)
    with False show ?thesis
      by (simp add: order_info_dict_def foldl_add_order_info rows)
  qed
qed

lemma no_customers_marker:
  assumes "\<forall>c. \<not> 1 < length (filter (\<lambda>ord. is_new ord \<and> customer_name ord = c) (orders db))"
  shows "customers_report (order_info_dict db) =
           ''\<newline>CUSTOMERS WITH MORE THAN ONE ORDER:\<newline>\<newline>NO CUSTOMERS WITH MULTIPLE ORDERS''"
proof -
  have none: "map_of (order_info_dict db) c = None" for c
    using assms by (simp add: order_info_dict_lookup)
  have "order_info_dict db = []"
  proof (cases "order_info_dict db")
    case Nil
    then show ?thesis .
  next
    case (Cons p l)
    then have "map_of (order_info_dict db) (fst p) = Some (snd p)" by simp
    with none [of "fst p"] show ?thesis by simp
  qed
  then show ?thesis by (simp add: customers_report_def)
qed



text \<open>
  Claim C3.  The order numbers listed for a reported customer are to be those of the
  customer's new orders.  The second query selects by customer name alone, without
  \<^verbatim>\<open>is_new = 1\<close>: for a customer with two new orders and one order seen before, all
  three order numbers are written, under the heading \<^verbatim>\<open>3 Orders\<close>.
\<close>

theorem C3_old_order_listed:
  "order_info_dict
     \<lparr>orders = [example_row ''1001'' ''Ann Lee'' False, example_row ''1002'' ''Ann Lee'' True,
                example_row ''1003'' ''Ann Lee'' True, example_row ''1004'' ''Bo Ek'' True],
      items = []\<rparr> = [(''Ann Lee'', [''1001'', ''1002'', ''1003''])]
   \<and> customers_report [(''Ann Lee'', [''1001'', ''1002'', ''1003''])] =
       ''\<newline>CUSTOMERS WITH MORE THAN ONE ORDER:\<newline>\<newline>Ann Lee - 3 Orders:\<newline>100110021003\<newline>\<newline>''"
  by (simp add: order_info_dict_def select_customer_orders_def customer_with_multiple_order_def
        add_order_info_def example_row_def customers_report_def py_str_small digit_char_def)

text \<open>
  Claim C2.  An order fetched again is flagged, and no order row or item row is added
  for it; it is to be absent from the pick list and from both reports.  Evaluated here:
  order \<^verbatim>\<open>1001\<close> is in the ledger, and \<^verbatim>\<open>1001\<close>, \<^verbatim>\<open>1002\<close>, \<^verbatim>\<open>1003\<close> of the same customer
  are fetched.  The ledger keeps one row and one item for \<^verbatim>\<open>1001\<close>, now not new, and
  the report of customers with more than one order still lists \<^verbatim>\<open>1001\<close>.
\<close>

theorem C2_reingested_order_listed:
  "(case parse_awaiting_shipment_order_data Map.empty
           (example_store
              [example_order ''1001'' ''Ann Lee'' [\<lparr>item_sku = ''PREM-100-MED'', item_name = ''Shirt'', item_quantity = 2\<rparr>],
               example_order ''1002'' ''Ann Lee'' [\<lparr>item_sku = ''PREM-100-LRG'', item_name = ''Shirt'', item_quantity = 1\<rparr>],
               example_order ''1003'' ''Ann Lee'' [\<lparr>item_sku = ''PREM-200-XL'', item_name = ''Shirt'', item_quantity = 1\<rparr>]]
              \<lparr>orders = [example_row ''1001'' ''Ann Lee'' True],
               items = [\<lparr>ord_num = ''1001'', sku = ''PREM-100-MED'', quantity = 2\<rparr>]\<rparr>) of
      Inl e \<Rightarrow> None
    | Inr st' \<Rightarrow>
        Some (map (\<lambda>r. (order_number r, is_new r)) (orders (cnx st')),
              map ord_num (items (cnx st')),
              order_info_dict (cnx st'))) =
   Some ([(''1001'', False), (''1002'', True), (''1003'', True)],
         [''1001'', ''1002'', ''1003''],
         [(''Ann Lee'', [''1001'', ''1002'', ''1003''])])"
  by (simp add: parse_awaiting_shipment_order_data_def example_store_def parse_order_def Let_def
        example_order_def example_date_parsed select_order_def update_not_new_def
        insert_order_def insert_item_def example_row_def item_sku_of_def
        order_info_dict_def select_customer_orders_def customer_with_multiple_order_def
        add_order_info_def)

text \<open>
  Claim C10.  The same order number fetched twice in one run: the first occurrence is
  inserted as new, the second flags it, both are logged with their own flag, and the
  order's items are not counted for the pick list.  The order is to be absent from the
  reports of that run as well, but the report of customers with more than one order
  lists it when the customer has two other new orders.
\<close>

theorem C10_duplicate_listed:
  "(case parse_awaiting_shipment_order_data Map.empty
           (example_store
              [example_order ''1001'' ''Ann Lee'' [\<lparr>item_sku = ''PREM-100-MED'', item_name = ''Shirt'', item_quantity = 2\<rparr>],
               example_order ''1001'' ''Ann Lee'' [\<lparr>item_sku = ''PREM-100-MED'', item_name = ''Shirt'', item_quantity = 2\<rparr>],
               example_order ''1002'' ''Ann Lee'' [\<lparr>item_sku = ''PREM-100-LRG'', item_name = ''Shirt'', item_quantity = 1\<rparr>],
               example_order ''1003'' ''Ann Lee'' [\<lparr>item_sku = ''PREM-200-XL'', item_name = ''Shirt'', item_quantity = 1\<rparr>]]
              \<lparr>orders = [], items = []\<rparr>) of
      Inl e \<Rightarrow> None
    | Inr st' \<Rightarrow>
        Some (map (\<lambda>l. (log_order_number l, log_is_new l)) (log st'),
              map (\<lambda>r. (order_number r, is_new r)) (orders (cnx st')),
              sku_totals (cnx st'),
              order_info_dict (cnx st'))) =
   Some ([(''1001'', True), (''1001'', False), (''1002'', True), (''1003'', True)],
         [(''1001'', False), (''1002'', True), (''1003'', True)],
         [(''PREM-100-LRG'', 1), (''PREM-200-XL'', 1)],
         [(''Ann Lee'', [''1001'', ''1002'', ''1003''])])"
  by (simp add: parse_awaiting_shipment_order_data_def example_store_def parse_order_def Let_def
        example_order_def example_date_parsed select_order_def update_not_new_def
        insert_order_def insert_item_def example_row_def item_sku_of_def
        order_info_dict_def select_customer_orders_def customer_with_multiple_order_def
        add_order_info_def sku_totals_def new_order_items_def)

end
